theory Spec2Isabelle
  imports Main "HOL-Library.Sublist"
begin


section \<open>JavaScript string primitives used by the gateway\<close>

text \<open>
  A JavaScript string is modelled as a \<^typ>\<open>string\<close>: one \<^typ>\<open>char\<close> per code unit,
  restricted to the code units below 256.  The functions below are the \<^verbatim>\<open>String.prototype\<close>
  methods the sources call, with their results on the arguments that occur.
\<close>

fun startsWith :: "string \<Rightarrow> string \<Rightarrow> bool" where
  "startsWith s [] = True"
| "startsWith [] (p # ps) = False"
| "startsWith (c # cs) (p # ps) = (c = p \<and> startsWith cs ps)"

definition endsWith :: "string \<Rightarrow> string \<Rightarrow> bool" where
  "endsWith s p = startsWith (rev s) (rev p)"

fun includesStr :: "string \<Rightarrow> string \<Rightarrow> bool" where
  "includesStr [] p = (p = [])"
| "includesStr (c # cs) p = (startsWith (c # cs) p \<or> includesStr cs p)"

fun indexOf :: "string \<Rightarrow> char \<Rightarrow> int" where
  "indexOf [] ch = - 1"
| "indexOf (c # cs) ch =
     (if c = ch then 0 else (let i = indexOf cs ch in if i < 0 then - 1 else i + 1))"

definition substring :: "string \<Rightarrow> int \<Rightarrow> int \<Rightarrow> string" where
  "substring s a b =
     (let n = int (length s);
          a' = max 0 (min a n);
          b' = max 0 (min b n);
          lo = min a' b';
          hi = max a' b'
      in take (nat (hi - lo)) (drop (nat lo) s))"

section \<open>Namespace guard (\<^verbatim>\<open>src/namespacing/ns.ts\<close>)\<close>

record NamespaceManager =
  nm_namespace :: string

definition newNamespaceManager :: "string \<Rightarrow> NamespaceManager" where
  "newNamespaceManager ns =
     \<lparr> nm_namespace = (if endsWith ns '':'' then ns else ns @ '':'') \<rparr>"

definition escapePatterns :: "string list" where
  "escapePatterns =
     [ ''..'', [CHR 0x00], [CHR 0x0A], [CHR 0x0D], ''*'', ''?'', ''['', '']'',
       [CHR 0x5C], ''$(('', ''${'', ''../'', [CHR ''.'', CHR ''.'', CHR 0x5C],
       ''eval('', ''exec('' ]"

text \<open>The three regular expressions of \<^verbatim>\<open>suspiciousPatterns\<close>, as tests on the key.\<close>

definition isControlChar :: "char \<Rightarrow> bool" where
  "isControlChar c =
     (let n = (of_char c :: nat)
      in n \<le> 8 \<or> n = 11 \<or> n = 12 \<or> (14 \<le> n \<and> n \<le> 31) \<or> n = 127)"

text \<open>The class \<^verbatim>\<open>\s\<close> of a JavaScript regular expression, below code unit 256.\<close>

definition isJsSpace :: "char \<Rightarrow> bool" where
  "isJsSpace c =
     (let n = (of_char c :: nat)
      in n = 9 \<or> n = 10 \<or> n = 11 \<or> n = 12 \<or> n = 13 \<or> n = 32 \<or> n = 160)"

definition reControl :: "string \<Rightarrow> bool" where
  "reControl key = list_ex isControlChar key"

definition reOnlyWhitespace :: "string \<Rightarrow> bool" where
  "reOnlyWhitespace key = list_all isJsSpace key"

definition reMultipleDots :: "string \<Rightarrow> bool" where
  "reMultipleDots key = includesStr key ''...''"

definition suspiciousPatterns :: "(string \<Rightarrow> bool) list" where
  "suspiciousPatterns = [reControl, reOnlyWhitespace, reMultipleDots]"

definition hasEscapeAttempt :: "string \<Rightarrow> bool" where
  "hasEscapeAttempt key =
     (list_ex (\<lambda>pattern. includesStr key pattern) escapePatterns \<or>
      list_ex (\<lambda>pattern. pattern key) suspiciousPatterns)"

definition hasWrongNamespace :: "NamespaceManager \<Rightarrow> string \<Rightarrow> bool" where
  "hasWrongNamespace nm key =
     (let colonIndex = indexOf key CHR '':''
      in if colonIndex > 0
         then (let keyNamespace = substring key 0 (colonIndex + 1)
               in keyNamespace \<noteq> nm_namespace nm)
         else False)"

definition ensureNamespace :: "NamespaceManager \<Rightarrow> string \<Rightarrow> string option" where
  "ensureNamespace nm key =
     (if key = [] then None
      else if hasEscapeAttempt key then None
      else if startsWith key (nm_namespace nm) then Some key
      else if hasWrongNamespace nm key then None
      else Some (nm_namespace nm @ key))"


section \<open>The namespace guard as the specification words it\<close>

text \<open>
  Second formulation of the guard, following the five steps of the specification rather than
  the code: it is compared with \<^const>\<open>ensureNamespace\<close> below.
\<close>


definition claimedForbiddenLiterals :: "string list" where
  "claimedForbiddenLiterals =
     [ ''..'', [CHR 0x00], [CHR 0x0D], [CHR 0x0A], ''*'', ''?'', ''['', '']'', [CHR 0x5C],
       ''${'', ''$(('', ''eval('', ''exec('' ]"

definition claimedControlChar :: "char \<Rightarrow> bool" where
  "claimedControlChar c = ((of_char c :: nat) \<in> {0..8} \<union> {11, 12} \<union> {14..31} \<union> {127})"

definition claimedForbidden :: "string \<Rightarrow> bool" where
  "claimedForbidden k =
     ((\<exists>p \<in> set claimedForbiddenLiterals. sublist p k) \<or> (\<exists>c \<in> set k. claimedControlChar c) \<or>
      (\<exists>n \<in> {3..length k}. sublist (replicate n CHR ''.'') k) \<or> (\<forall>c \<in> set k. isJsSpace c))"

definition namespaceGuard_claimed :: "string \<Rightarrow> string \<Rightarrow> string option" where
  "namespaceGuard_claimed N k =
     (if k = [] then None
      else if claimedForbidden k then None
      else if prefix N k then Some k
      else if (\<exists>i \<in> {1..<length k}. k ! i = CHR '':'' \<and> take (Suc i) k \<noteq> N) then None
      else Some (N @ k))"

definition namespaceGuard_amended :: "string \<Rightarrow> string \<Rightarrow> string option" where
  "namespaceGuard_amended N k =
     (if k = [] then None
      else if claimedForbidden k then None
      else if prefix N k then Some k
      else if (\<exists>i \<in> {1..<length k}. k ! i = CHR '':'' \<and> (\<forall>j < i. k ! j \<noteq> CHR '':'') \<and> take (Suc i) k \<noteq> N) then None
      else Some (N @ k))"



section \<open>Base-64 as Node's \<^verbatim>\<open>Buffer\<close> does it\<close>

text \<open>
  \<^verbatim>\<open>Buffer.from(s, 'base64')\<close> never throws: it skips every character outside the alphabet
  (the URL-safe \<^verbatim>\<open>-\<close> and \<^verbatim>\<open>_\<close> count as 62 and 63), stops at the first \<^verbatim>\<open>=\<close>, and turns
  the sextets read so far into bytes, dropping an incomplete last byte.
  \<^verbatim>\<open>buf.toString('base64')\<close> is the standard padded encoding.  A buffer is modelled as
  the \<^typ>\<open>string\<close> of its bytes.
\<close>

definition unbase64 :: "char \<Rightarrow> nat option" where
  "unbase64 c =
     (let n = (of_char c :: nat)
      in if 65 \<le> n \<and> n \<le> 90 then Some (n - 65)
         else if 97 \<le> n \<and> n \<le> 122 then Some (n - 71)
         else if 48 \<le> n \<and> n \<le> 57 then Some (n + 4)
         else if n = 43 \<or> n = 45 then Some 62
         else if n = 47 \<or> n = 95 then Some 63
         else None)"

fun base64Sextets :: "string \<Rightarrow> nat list" where
  "base64Sextets [] = []"
| "base64Sextets (c # cs) =
     (case unbase64 c of
        Some v \<Rightarrow> v # base64Sextets cs
      | None \<Rightarrow> (if c = CHR ''='' then [] else base64Sextets cs))"

fun sextetsToBytes :: "nat list \<Rightarrow> nat list" where
  "sextetsToBytes (a # b # c # d # rest) =
     (a * 4 + b div 16) # ((b mod 16) * 16 + c div 4) # ((c mod 4) * 64 + d) #
     sextetsToBytes rest"
| "sextetsToBytes [a, b, c] = [a * 4 + b div 16, (b mod 16) * 16 + c div 4]"
| "sextetsToBytes [a, b] = [a * 4 + b div 16]"
| "sextetsToBytes [a] = []"
| "sextetsToBytes [] = []"

definition bufferFromBase64 :: "string \<Rightarrow> string" where
  "bufferFromBase64 s = map char_of (sextetsToBytes (base64Sextets s))"

definition base64Char :: "nat \<Rightarrow> char" where
  "base64Char n =
     (if n < 26 then char_of (n + 65)
      else if n < 52 then char_of (n + 71)
      else if n < 62 then char_of (n - 4)
      else if n = 62 then CHR ''+''
      else CHR ''/'')"

fun bytesToBase64 :: "nat list \<Rightarrow> string" where
  "bytesToBase64 (x # y # z # rest) =
     base64Char (x div 4) # base64Char ((x mod 4) * 16 + y div 16) #
     base64Char ((y mod 16) * 4 + z div 64) # base64Char (z mod 64) # bytesToBase64 rest"
| "bytesToBase64 [x, y] =
     [base64Char (x div 4), base64Char ((x mod 4) * 16 + y div 16),
      base64Char ((y mod 16) * 4), CHR ''='']"
| "bytesToBase64 [x] = [base64Char (x div 4), base64Char ((x mod 4) * 16), CHR ''='', CHR ''='']"
| "bytesToBase64 [] = []"

definition toBase64 :: "string \<Rightarrow> string" where
  "toBase64 buf = bytesToBase64 (map of_char buf)"

section \<open>UTF-8 between buffers and JavaScript strings\<close>

text \<open>
  The string a Redis reply is handed over as, and the string of characters a stored value
  decodes to, may hold any UTF-16 code unit: such a string is the list of its code units.
  \<^verbatim>\<open>buf.toString('utf8')\<close>, which the Redis client applies to a bulk reply, decodes as the
  WHATWG decoder does: an ill-formed sequence gives one U+FFFD for its longest well-formed
  beginning, and the byte that ended it is read again.  The decoder's state is the number of
  continuation bytes still needed, the code point so far and the bounds of the next byte.
\<close>

type_synonym codeUnits = "int list"

fun utf8CodePoints :: "nat \<Rightarrow> int \<Rightarrow> int \<Rightarrow> int \<Rightarrow> int list \<Rightarrow> int list" where
  "utf8CodePoints needed cp lower upper [] = (if needed = 0 then [] else [65533])"
| "utf8CodePoints needed cp lower upper (b # bs) =
     (if needed \<noteq> 0 \<and> lower \<le> b \<and> b \<le> upper
      then (let cp' = cp * 64 + b mod 64
            in if needed = 1 then cp' # utf8CodePoints 0 0 128 191 bs
               else utf8CodePoints (needed - 1) cp' 128 191 bs)
      else (if needed \<noteq> 0 then [65533] else []) @
           (if b < 128 then b # utf8CodePoints 0 0 128 191 bs
            else if 194 \<le> b \<and> b \<le> 223 then utf8CodePoints 1 (b mod 32) 128 191 bs
            else if 224 \<le> b \<and> b \<le> 239
            then utf8CodePoints 2 (b mod 16) (if b = 224 then 160 else 128)
                   (if b = 237 then 159 else 191) bs
            else if 240 \<le> b \<and> b \<le> 244
            then utf8CodePoints 3 (b mod 8) (if b = 240 then 144 else 128)
                   (if b = 244 then 143 else 191) bs
            else 65533 # utf8CodePoints 0 0 128 191 bs))"

text \<open>A code point as UTF-16: itself, or a surrogate pair from U+10000 on.\<close>

definition codePointUnits :: "int \<Rightarrow> codeUnits" where
  "codePointUnits cp =
     (if cp < 65536 then [cp]
      else [55296 + (cp - 65536) div 1024, 56320 + (cp - 65536) mod 1024])"

definition utf8ToString :: "string \<Rightarrow> codeUnits" where
  "utf8ToString buf = concat (map codePointUnits (utf8CodePoints 0 0 128 191 (map of_char buf)))"

text \<open>
  \<^verbatim>\<open>Buffer.from(str)\<close> encodes the string as UTF-8; a surrogate pair is one code point of
  four bytes, a surrogate on its own is encoded as U+FFFD.
\<close>

definition utf8Unit :: "int \<Rightarrow> int list" where
  "utf8Unit u =
     (if u < 128 then [u]
      else if u < 2048 then [192 + u div 64, 128 + u mod 64]
      else if 55296 \<le> u \<and> u < 57344 then [239, 191, 189]
      else [224 + u div 4096, 128 + (u div 64) mod 64, 128 + u mod 64])"

fun utf8Bytes :: "codeUnits \<Rightarrow> int list" where
  "utf8Bytes [] = []"
| "utf8Bytes [u] = utf8Unit u"
| "utf8Bytes (u # v # vs) =
     (if 55296 \<le> u \<and> u < 56320 \<and> 56320 \<le> v \<and> v < 57344
      then (let cp = 65536 + (u - 55296) * 1024 + (v - 56320)
            in [240 + cp div 262144, 128 + (cp div 4096) mod 64, 128 + (cp div 64) mod 64,
                128 + cp mod 64] @ utf8Bytes vs)
      else utf8Unit u @ utf8Bytes (v # vs))"

definition bufferFromString :: "codeUnits \<Rightarrow> string" where
  "bufferFromString str = map char_of (utf8Bytes str)"

text \<open>The code units of a string of the model, whose code units are below 256.\<close>

definition unitsOf :: "string \<Rightarrow> codeUnits" where
  "unitsOf s = map of_char s"

section \<open>Data model (\<^verbatim>\<open>src/types.ts\<close>)\<close>

text \<open>
  A parsed JSON document.  Numbers are modelled as integers: the limits, sizes, TTLs and
  timestamps of the protocol are integers, and a fractional number in a request is outside
  the model.  An object is the list of its properties.
\<close>

datatype json =
    JNull
  | JBool bool
  | JNum int
  | JStr string
  | JArr "json list"
  | JObj "(string \<times> json) list"

text \<open>Property access \<^verbatim>\<open>v.name\<close> on a value other than \<^verbatim>\<open>null\<close>; \<open>None\<close> is \<^verbatim>\<open>undefined\<close>.\<close>

fun jprop :: "json \<Rightarrow> string \<Rightarrow> json option" where
  "jprop (JObj fs) name = map_of fs name"
| "jprop v name = None"

text \<open>JavaScript truthiness of a JSON value.\<close>

fun truthy :: "json \<Rightarrow> bool" where
  "truthy JNull = False"
| "truthy (JBool b) = b"
| "truthy (JNum n) = (n \<noteq> 0)"
| "truthy (JStr s) = (s \<noteq> [])"
| "truthy (JArr xs) = True"
| "truthy (JObj fs) = True"

datatype ErrorCode =
    UNAUTHORIZED | RESTRICTED | RATE_LIMITED | PAYLOAD_TOO_LARGE
  | INVALID_KEY | INVALID_VALUE | NOT_IMPLEMENTED | INTERNAL

record Limits =
  mps :: int
  bps :: int
  maxKey :: int
  maxVal :: int
  mgetMax :: int

record ByteRecord =
  br_timestamp :: int
  br_bytes :: int

record RateLimitState =
  requests :: "int list"
  bytes :: "ByteRecord list"

record ClientConnection =
  pubkey :: string
  namespace :: string
  allowedMethods :: "string list"
  limits :: Limits
  rateLimitState :: "RateLimitState option"

text \<open>The validated request (\<^verbatim>\<open>KVRequest\<close>) after \<^verbatim>\<open>baseRequestSchema.parse\<close>.\<close>

record KVRequest =
  rq_method :: string
  rq_params :: "(string \<times> json) list"
  rq_id :: string

datatype KVResult =
    RInfo "string list" string Limits bool bool
  | RValue "string option"
  | ROk bool
  | RDeleted int
  | RExists bool
  | RValues "string option list"
  | RTtl int

text \<open>
  \<^verbatim>\<open>KVResponse\<close>.  The id is the request's \<^verbatim>\<open>id\<close> property as it came: a string for a
  validated request, any JSON value or \<^verbatim>\<open>undefined\<close> (\<open>None\<close>) in the catch-all branch.
\<close>

record KVResponse =
  rs_result :: "KVResult option"
  rs_error :: "(ErrorCode \<times> string) option"
  rs_id :: "json option"

section \<open>Validators (\<^verbatim>\<open>Validator\<close> in \<^verbatim>\<open>src/limits/budget.ts\<close>)\<close>

definition validateKey :: "string \<Rightarrow> int \<Rightarrow> bool" where
  "validateKey key maxLength =
     (if key = [] then False
      else if int (length key) > maxLength then False
      else if includesStr key [CHR 0x00] then False
      else True)"

definition validateValue :: "string \<Rightarrow> int \<Rightarrow> bool" where
  "validateValue v maxSize =
     (if v = [] then True
      else (let decoded = bufferFromBase64 v
            in if int (length decoded) > maxSize then False else True))"

definition validateMgetCount :: "int \<Rightarrow> int \<Rightarrow> bool" where
  "validateMgetCount count maxCount =
     (if count \<le> 0 then False else if count > maxCount then False else True)"

section \<open>Sliding windows (\<^verbatim>\<open>RateLimiter\<close>, \<^verbatim>\<open>BudgetManager\<close>)\<close>

definition windowMs :: int where
  "windowMs = 60000"

text \<open>The state after \<^verbatim>\<open>if (!connection.rateLimitState) connection.rateLimitState = {...}\<close>.\<close>

definition stateOrInit :: "ClientConnection \<Rightarrow> RateLimitState" where
  "stateOrInit connection =
     (case rateLimitState connection of
        None \<Rightarrow> \<lparr> requests = [], bytes = [] \<rparr>
      | Some s \<Rightarrow> s)"

definition checkLimit :: "int \<Rightarrow> ClientConnection \<Rightarrow> bool \<times> ClientConnection" where
  "checkLimit now connection =
     (let s = stateOrInit connection;
          kept = filter (\<lambda>timestamp. now - timestamp < windowMs) (requests s)
      in if int (length kept) \<ge> mps (limits connection)
         then (False, connection\<lparr> rateLimitState := Some (s\<lparr> requests := kept \<rparr>) \<rparr>)
         else (True, connection\<lparr> rateLimitState := Some (s\<lparr> requests := kept @ [now] \<rparr>) \<rparr>))"

definition inWindow :: "int \<Rightarrow> ByteRecord \<Rightarrow> bool" where
  "inWindow now record = (now - br_timestamp record < windowMs)"

definition sumBytes :: "ByteRecord list \<Rightarrow> int" where
  "sumBytes rs = foldl (\<lambda>sum record. sum + br_bytes record) 0 rs"

definition checkBudget :: "int \<Rightarrow> ClientConnection \<Rightarrow> int \<Rightarrow> bool \<times> ClientConnection" where
  "checkBudget now connection requestBytes =
     (let s = stateOrInit connection;
          kept = filter (inWindow now) (bytes s);
          connection' = connection\<lparr> rateLimitState := Some (s\<lparr> bytes := kept \<rparr>) \<rparr>;
          currentUsage = sumBytes kept
      in if currentUsage + requestBytes > bps (limits connection)
         then (False, connection')
         else (True, connection'))"

definition getCurrentUsage :: "int \<Rightarrow> ClientConnection \<Rightarrow> int \<times> ClientConnection" where
  "getCurrentUsage now connection =
     (case rateLimitState connection of
        None \<Rightarrow> (0, connection)
      | Some s \<Rightarrow>
          (let kept = filter (inWindow now) (bytes s)
           in (sumBytes kept, connection\<lparr> rateLimitState := Some (s\<lparr> bytes := kept \<rparr>) \<rparr>)))"

text \<open>
  \<^verbatim>\<open>consumeBudget\<close> pushes the record stamped \<open>tPush\<close>; its debug log line then calls
  \<^verbatim>\<open>getCurrentUsage\<close>, which purges the window at \<open>tUsage\<close>.
\<close>

definition consumeBudget :: "int \<Rightarrow> int \<Rightarrow> ClientConnection \<Rightarrow> int \<Rightarrow> ClientConnection" where
  "consumeBudget tPush tUsage connection n =
     (let s = stateOrInit connection;
          pushed = connection\<lparr> rateLimitState :=
                     Some (s\<lparr> bytes := bytes s @ [\<lparr> br_timestamp = tPush, br_bytes = n \<rparr>] \<rparr>) \<rparr>
      in snd (getCurrentUsage tUsage pushed))"

section \<open>Idempotency cache (\<^verbatim>\<open>IdempotencyCache\<close> in \<^verbatim>\<open>src/relays/relayPool.ts\<close>)\<close>

record CachedResponse =
  cr_response :: KVResponse
  cr_timestamp :: int

type_synonym IdempotencyCache = "string \<rightharpoonup> CachedResponse"

definition getCacheKey :: "string \<Rightarrow> string \<Rightarrow> string" where
  "getCacheKey clientPubkey requestId = clientPubkey @ '':'' @ requestId"

definition cacheGet ::
  "int \<Rightarrow> IdempotencyCache \<Rightarrow> string \<Rightarrow> string \<Rightarrow> KVResponse option \<times> IdempotencyCache" where
  "cacheGet now cache clientPubkey requestId =
     (let key = getCacheKey clientPubkey requestId
      in case cache key of
           None \<Rightarrow> (None, cache)
         | Some cached \<Rightarrow>
             (let age = now - cr_timestamp cached
              in if age > windowMs then (None, cache(key := None))
                 else (Some (cr_response cached), cache)))"

definition cacheSet ::
  "int \<Rightarrow> IdempotencyCache \<Rightarrow> string \<Rightarrow> string \<Rightarrow> KVResponse \<Rightarrow> IdempotencyCache" where
  "cacheSet now cache clientPubkey requestId response =
     cache(getCacheKey clientPubkey requestId \<mapsto>
             \<lparr> cr_response = response, cr_timestamp = now \<rparr>)"

text \<open>The sweep run by the interval timer.\<close>

definition cleanup :: "int \<Rightarrow> IdempotencyCache \<Rightarrow> IdempotencyCache" where
  "cleanup now cache =
     (\<lambda>key. case cache key of
               None \<Rightarrow> None
             | Some cached \<Rightarrow> (if now - cr_timestamp cached > windowMs then None else Some cached))"

section \<open>The backend store\<close>

text \<open>
  The Redis commands the gateway issues, with the replies Redis documents for them.  A key
  holds a string or a list and may carry an expiry instant (milliseconds); an expired key is
  absent.  A command answers \<open>None\<close> when Redis replies with an error or the connection is
  down (\<open>rd_up\<close>): the client library then rejects the promise.  \<open>rd_commands\<close> is a history
  of the commands issued, kept for stating which keys reach the backend.
\<close>

record AuditEntry =
  ae_method :: string
  ae_keyHash :: string
  ae_valueSize :: json
  ae_status :: string
  ae_errorCode :: "ErrorCode option"
  ae_latency :: int
  ae_clientPubkey :: string
  ae_timestamp :: "int option"

datatype RedisValue =
    RString string
  | RList "AuditEntry list"

record RedisEntry =
  re_value :: RedisValue
  re_expireAt :: "int option"

datatype RedisCommand =
    GET string
  | SET string string "int option"
  | DEL string
  | EXISTS string
  | MGET "string list"
  | EXPIRE string int
  | TTL string
  | LPUSH string AuditEntry
  | LTRIM string int int

record Redis =
  rd_entries :: "string \<rightharpoonup> RedisEntry"
  rd_up :: bool
  rd_commands :: "RedisCommand list"

definition issue :: "RedisCommand \<Rightarrow> Redis \<Rightarrow> Redis" where
  "issue cmd r = r\<lparr> rd_commands := rd_commands r @ [cmd] \<rparr>"

definition redisLookup :: "int \<Rightarrow> Redis \<Rightarrow> string \<Rightarrow> RedisEntry option" where
  "redisLookup now r key =
     (case rd_entries r key of
        None \<Rightarrow> None
      | Some e \<Rightarrow>
          (case re_expireAt e of
             None \<Rightarrow> Some e
           | Some t \<Rightarrow> (if now < t then Some e else None)))"

definition redisGet :: "int \<Rightarrow> Redis \<Rightarrow> string \<Rightarrow> string option option \<times> Redis" where
  "redisGet now r key =
     (let r' = issue (GET key) r
      in if \<not> rd_up r then (None, r')
         else case redisLookup now r key of
                None \<Rightarrow> (Some None, r')
              | Some e \<Rightarrow>
                  (case re_value e of
                     RString s \<Rightarrow> (Some (Some s), r')
                   | RList xs \<Rightarrow> (None, r')))"

definition redisSet ::
  "int \<Rightarrow> Redis \<Rightarrow> string \<Rightarrow> string \<Rightarrow> int option \<Rightarrow> unit option \<times> Redis" where
  "redisSet now r key v ex =
     (let r' = issue (SET key v ex) r
      in if \<not> rd_up r then (None, r')
         else case ex of
                None \<Rightarrow>
                  (Some (), r'\<lparr> rd_entries := (rd_entries r)(key \<mapsto>
                                \<lparr> re_value = RString v, re_expireAt = None \<rparr>) \<rparr>)
              | Some ttl \<Rightarrow>
                  (if ttl \<le> 0 then (None, r')
                   else (Some (), r'\<lparr> rd_entries := (rd_entries r)(key \<mapsto>
                                \<lparr> re_value = RString v, re_expireAt = Some (now + ttl * 1000) \<rparr>) \<rparr>)))"

definition redisDel :: "int \<Rightarrow> Redis \<Rightarrow> string \<Rightarrow> int option \<times> Redis" where
  "redisDel now r key =
     (let r' = issue (DEL key) r
      in if \<not> rd_up r then (None, r')
         else case redisLookup now r key of
                None \<Rightarrow> (Some 0, r'\<lparr> rd_entries := (rd_entries r)(key := None) \<rparr>)
              | Some e \<Rightarrow> (Some 1, r'\<lparr> rd_entries := (rd_entries r)(key := None) \<rparr>))"

definition redisExists :: "int \<Rightarrow> Redis \<Rightarrow> string \<Rightarrow> int option \<times> Redis" where
  "redisExists now r key =
     (let r' = issue (EXISTS key) r
      in if \<not> rd_up r then (None, r')
         else case redisLookup now r key of
                None \<Rightarrow> (Some 0, r')
              | Some e \<Rightarrow> (Some 1, r'))"

definition redisMget :: "int \<Rightarrow> Redis \<Rightarrow> string list \<Rightarrow> string option list option \<times> Redis" where
  "redisMget now r keys =
     (let r' = issue (MGET keys) r
      in if \<not> rd_up r then (None, r')
         else (Some (map (\<lambda>key. case redisLookup now r key of
                                    None \<Rightarrow> None
                                  | Some e \<Rightarrow> (case re_value e of
                                                RString s \<Rightarrow> Some s
                                              | RList xs \<Rightarrow> None)) keys), r'))"

definition redisExpire :: "int \<Rightarrow> Redis \<Rightarrow> string \<Rightarrow> int \<Rightarrow> int option \<times> Redis" where
  "redisExpire now r key ttl =
     (let r' = issue (EXPIRE key ttl) r
      in if \<not> rd_up r then (None, r')
         else case redisLookup now r key of
                None \<Rightarrow> (Some 0, r')
              | Some e \<Rightarrow>
                  (if ttl \<le> 0
                   then (Some 1, r'\<lparr> rd_entries := (rd_entries r)(key := None) \<rparr>)
                   else (Some 1, r'\<lparr> rd_entries := (rd_entries r)(key \<mapsto>
                                  e\<lparr> re_expireAt := Some (now + ttl * 1000) \<rparr>) \<rparr>)))"

definition redisTtl :: "int \<Rightarrow> Redis \<Rightarrow> string \<Rightarrow> int option \<times> Redis" where
  "redisTtl now r key =
     (let r' = issue (TTL key) r
      in if \<not> rd_up r then (None, r')
         else case redisLookup now r key of
                None \<Rightarrow> (Some (- 2), r')
              | Some e \<Rightarrow>
                  (case re_expireAt e of
                     None \<Rightarrow> (Some (- 1), r')
                   | Some t \<Rightarrow> (Some ((t - now + 500) div 1000), r')))"

definition redisLpush :: "int \<Rightarrow> Redis \<Rightarrow> string \<Rightarrow> AuditEntry \<Rightarrow> int option \<times> Redis" where
  "redisLpush now r key x =
     (let r' = issue (LPUSH key x) r
      in if \<not> rd_up r then (None, r')
         else case redisLookup now r key of
                None \<Rightarrow>
                  (Some 1, r'\<lparr> rd_entries := (rd_entries r)(key \<mapsto>
                                \<lparr> re_value = RList [x], re_expireAt = None \<rparr>) \<rparr>)
              | Some e \<Rightarrow>
                  (case re_value e of
                     RString s \<Rightarrow> (None, r')
                   | RList xs \<Rightarrow>
                       (Some (int (length xs) + 1),
                        r'\<lparr> rd_entries := (rd_entries r)(key \<mapsto> e\<lparr> re_value := RList (x # xs) \<rparr>) \<rparr>)))"

text \<open>\<^verbatim>\<open>LTRIM key 0 stop\<close> with \<open>0 \<le> stop\<close>, the only form the gateway issues.\<close>

definition redisLtrim :: "int \<Rightarrow> Redis \<Rightarrow> string \<Rightarrow> int \<Rightarrow> int \<Rightarrow> unit option \<times> Redis" where
  "redisLtrim now r key start stop =
     (let r' = issue (LTRIM key start stop) r
      in if \<not> rd_up r then (None, r')
         else case redisLookup now r key of
                None \<Rightarrow> (Some (), r')
              | Some e \<Rightarrow>
                  (case re_value e of
                     RString s \<Rightarrow> (None, r')
                   | RList xs \<Rightarrow>
                       (Some (),
                        r'\<lparr> rd_entries := (rd_entries r)(key \<mapsto>
                              e\<lparr> re_value := RList (take (nat (stop + 1)) xs) \<rparr>) \<rparr>)))"

section \<open>Key-value adapter (\<^verbatim>\<open>src/redis/kv.ts\<close>)\<close>

text \<open>Every method rethrows the error of its command: \<open>None\<close> is the rejected promise.\<close>

text \<open>
  \<^verbatim>\<open>Buffer.from(str, 'base64').toString('base64') === str\<close> on a string of any code
  units.  The re-encoding holds characters of the base-64 alphabet only, so the comparison
  fails for a string with a code unit from 128 on, whatever is decoded from it; the model
  decodes the low byte of every code unit.
\<close>

definition isBase64 :: "codeUnits \<Rightarrow> bool" where
  "isBase64 str = (unitsOf (toBase64 (bufferFromBase64 (map char_of str))) = str)"

text \<open>
  The value get and mget return for the bytes stored under a key.  The client hands the
  reply over as the string the bytes decode to.  A string returned as it is passed
  \<^const>\<open>isBase64\<close> and so holds characters of the base-64 alphabet only.
\<close>

definition kvGet :: "int \<Rightarrow> Redis \<Rightarrow> string \<Rightarrow> string option option \<times> Redis" where
  "kvGet now r key =
     (case redisGet now r key of
        (None, r') \<Rightarrow> (None, r')
      | (Some None, r') \<Rightarrow> (Some None, r')
      | (Some (Some stored), r') \<Rightarrow>
          (let v = utf8ToString stored
           in if isBase64 v then (Some (Some (map char_of v)), r')
              else (Some (Some (toBase64 (bufferFromString v))), r')))"

definition kvSet :: "int \<Rightarrow> Redis \<Rightarrow> string \<Rightarrow> string \<Rightarrow> int option \<Rightarrow> unit option \<times> Redis" where
  "kvSet now r key v ttl =
     (let decodedValue = bufferFromBase64 v
      in case ttl of
           Some t \<Rightarrow>
             (if t \<noteq> 0 \<and> t > 0 then redisSet now r key decodedValue (Some t)
              else redisSet now r key decodedValue None)
         | None \<Rightarrow> redisSet now r key decodedValue None)"

definition kvDel :: "int \<Rightarrow> Redis \<Rightarrow> string \<Rightarrow> int option \<times> Redis" where
  "kvDel now r key = redisDel now r key"

definition kvExists :: "int \<Rightarrow> Redis \<Rightarrow> string \<Rightarrow> bool option \<times> Redis" where
  "kvExists now r key =
     (case redisExists now r key of
        (None, r') \<Rightarrow> (None, r')
      | (Some n, r') \<Rightarrow> (Some (n = 1), r'))"

definition kvMget :: "int \<Rightarrow> Redis \<Rightarrow> string list \<Rightarrow> string option list option \<times> Redis" where
  "kvMget now r keys =
     (case redisMget now r keys of
        (None, r') \<Rightarrow> (None, r')
      | (Some values, r') \<Rightarrow>
          (Some (map (\<lambda>v. case v of
                            None \<Rightarrow> None
                          | Some stored \<Rightarrow>
                              (let s = utf8ToString stored
                               in if isBase64 s then Some (map char_of s)
                                  else Some (toBase64 (bufferFromString s)))) values),
           r'))"

definition kvExpire :: "int \<Rightarrow> Redis \<Rightarrow> string \<Rightarrow> int \<Rightarrow> bool option \<times> Redis" where
  "kvExpire now r key ttl =
     (case redisExpire now r key ttl of
        (None, r') \<Rightarrow> (None, r')
      | (Some n, r') \<Rightarrow> (Some (n = 1), r'))"

definition kvTtl :: "int \<Rightarrow> Redis \<Rightarrow> string \<Rightarrow> int option \<times> Redis" where
  "kvTtl now r key = redisTtl now r key"

section \<open>Audit log (\<^verbatim>\<open>src/audit/audit.ts\<close>)\<close>

definition maxEntries :: int where
  "maxEntries = 10000"

definition redactPubkey :: "string \<Rightarrow> string" where
  "redactPubkey pk =
     (if length pk \<le> 8 then ''****''
      else substring pk 0 4 @ ''...'' @ substring pk (int (length pk) - 4) (int (length pk)))"

text \<open>
  \<^verbatim>\<open>AuditLogger.log\<close>: the record is pushed at the head of the list and the list trimmed; an
  error of either command is caught and logged, and the request goes on.
\<close>

definition auditLog :: "int \<Rightarrow> string \<Rightarrow> Redis \<Rightarrow> AuditEntry \<Rightarrow> Redis" where
  "auditLog now auditKey r entry =
     (let auditRecord = entry\<lparr>
            ae_timestamp := (case ae_timestamp entry of
                               None \<Rightarrow> Some now
                             | Some t \<Rightarrow> (if t \<noteq> 0 then Some t else Some now)),
            ae_clientPubkey := redactPubkey (ae_clientPubkey entry) \<rparr>
      in case redisLpush now r auditKey auditRecord of
           (None, r1) \<Rightarrow> r1
         | (Some n, r1) \<Rightarrow> snd (redisLtrim now r1 auditKey 0 (maxEntries - 1)))"

section \<open>Protocol router (\<^verbatim>\<open>src/protocol/router.ts\<close>)\<close>

text \<open>
  \<^verbatim>\<open>Date.now()\<close> is read at several places while one request is handled; a \<open>Clock\<close> gives
  the value of each reading: at entry, in the cache lookup, in the rate check, in the budget
  check, when the backend runs the command, in the cache insert, in the pushed byte record,
  in the usage purge after it, at the latency computation and in the audit record.
\<close>

record Clock =
  t_start :: int
  t_cacheGet :: int
  t_rate :: int
  t_budget :: int
  t_backend :: int
  t_cacheSet :: int
  t_consume :: int
  t_usage :: int
  t_end :: int
  t_audit :: int

record DMCrypto =
  preferNip44 :: bool
  nip44Available :: bool
  nip04Available :: bool

text \<open>
  What the gateway takes from its runtime and configuration: the length of
  \<^verbatim>\<open>JSON.stringify\<close> of a request and of a response, \<^verbatim>\<open>Buffer.from\<close> on an array or object
  (\<open>None\<close> when it throws), the audit key, decryption under the server's key (\<open>None\<close> when
  both schemes reject), \<^verbatim>\<open>JSON.parse\<close> (\<open>None\<close> when it throws), the connection registry
  file and the configured defaults.
\<close>

record Env =
  stringifyRequest :: "json \<Rightarrow> int"
  stringifyResponse :: "KVResponse \<Rightarrow> int"
  bufferFromOther :: "json \<Rightarrow> string option"
  auditKey :: string
  decrypt :: "string \<Rightarrow> string \<Rightarrow> string option"
  jsonParse :: "string \<Rightarrow> json option"
  loadConnectionFromRegistry :: "string \<Rightarrow> ClientConnection option"
  configNamespace :: string
  configLimits :: Limits

record Router =
  idempotencyCache :: IdempotencyCache
  namespaceManagers :: "string \<rightharpoonup> NamespaceManager"
  redis :: Redis
  dmCrypto :: DMCrypto

definition getNamespaceManager :: "Router \<Rightarrow> ClientConnection \<Rightarrow> NamespaceManager \<times> Router" where
  "getNamespaceManager router connection =
     (let ns = namespace connection
      in case namespaceManagers router ns of
           None \<Rightarrow>
             (let m = newNamespaceManager ns
              in (m, router\<lparr> namespaceManagers := (namespaceManagers router)(ns \<mapsto> m) \<rparr>))
         | Some m \<Rightarrow> (m, router))"

definition baseRequestSchemaParse :: "json \<Rightarrow> KVRequest option" where
  "baseRequestSchemaParse request =
     (case (jprop request ''method'', jprop request ''params'', jprop request ''id'') of
        (Some (JStr m), Some (JObj ps), Some (JStr i)) \<Rightarrow>
          Some \<lparr> rq_method = m, rq_params = ps, rq_id = i \<rparr>
      | _ \<Rightarrow> None)"

definition keyParamsParse :: "(string \<times> json) list \<Rightarrow> string option" where
  "keyParamsParse ps = (case map_of ps ''key'' of Some (JStr k) \<Rightarrow> Some k | _ \<Rightarrow> None)"

definition setParamsParse :: "(string \<times> json) list \<Rightarrow> (string \<times> string \<times> int option) option" where
  "setParamsParse ps =
     (case (map_of ps ''key'', map_of ps ''value'') of
        (Some (JStr k), Some (JStr v)) \<Rightarrow>
          (case map_of ps ''ttl'' of
             None \<Rightarrow> Some (k, v, None)
           | Some (JNum n) \<Rightarrow> (if n > 0 then Some (k, v, Some n) else None)
           | Some _ \<Rightarrow> None)
      | _ \<Rightarrow> None)"

fun stringArray :: "json list \<Rightarrow> string list option" where
  "stringArray [] = Some []"
| "stringArray (JStr s # xs) = (case stringArray xs of Some ss \<Rightarrow> Some (s # ss) | None \<Rightarrow> None)"
| "stringArray (x # xs) = None"

definition mgetParamsParse :: "(string \<times> json) list \<Rightarrow> string list option" where
  "mgetParamsParse ps =
     (case map_of ps ''keys'' of
        Some (JArr xs) \<Rightarrow> (if length xs < 1 then None else stringArray xs)
      | _ \<Rightarrow> None)"

definition expireParamsParse :: "(string \<times> json) list \<Rightarrow> (string \<times> int) option" where
  "expireParamsParse ps =
     (case (map_of ps ''key'', map_of ps ''ttl'') of
        (Some (JStr k), Some (JNum n)) \<Rightarrow> (if n > 0 then Some (k, n) else None)
      | _ \<Rightarrow> None)"

definition errorResponse :: "json option \<Rightarrow> ErrorCode \<Rightarrow> string \<Rightarrow> KVResponse" where
  "errorResponse i code message =
     \<lparr> rs_result = None, rs_error = Some (code, message), rs_id = i \<rparr>"

definition okResponse :: "json option \<Rightarrow> KVResult \<Rightarrow> KVResponse" where
  "okResponse i res = \<lparr> rs_result = Some res, rs_error = None, rs_id = i \<rparr>"

definition requestId :: "KVRequest \<Rightarrow> json option" where
  "requestId request = Some (JStr (rq_id request))"

definition handleGetInfo :: "KVRequest \<Rightarrow> ClientConnection \<Rightarrow> Router \<Rightarrow> KVResponse \<times> Redis" where
  "handleGetInfo request connection router =
     (okResponse (requestId request)
        (RInfo (allowedMethods connection) (namespace connection) (limits connection)
           (nip44Available (dmCrypto router)) (nip04Available (dmCrypto router))),
      redis router)"

definition handleGet ::
  "int \<Rightarrow> KVRequest \<Rightarrow> ClientConnection \<Rightarrow> NamespaceManager \<Rightarrow> Router \<Rightarrow> KVResponse \<times> Redis" where
  "handleGet now request connection namespaceManager router =
     (case keyParamsParse (rq_params request) of
        None \<Rightarrow> (errorResponse (requestId request) INTERNAL ''Failed to get value'', redis router)
      | Some key \<Rightarrow>
          (if \<not> validateKey key (maxKey (limits connection))
           then (errorResponse (requestId request) INVALID_KEY ''Key too long or invalid'',
                 redis router)
           else case ensureNamespace namespaceManager key of
                  None \<Rightarrow> (errorResponse (requestId request) RESTRICTED ''Key outside namespace'',
                           redis router)
                | Some fullKey \<Rightarrow>
                    (case kvGet now (redis router) fullKey of
                       (None, r) \<Rightarrow>
                         (errorResponse (requestId request) INTERNAL ''Failed to get value'', r)
                     | (Some v, r) \<Rightarrow> (okResponse (requestId request) (RValue v), r))))"

definition handleSet ::
  "int \<Rightarrow> KVRequest \<Rightarrow> ClientConnection \<Rightarrow> NamespaceManager \<Rightarrow> Router \<Rightarrow> KVResponse \<times> Redis" where
  "handleSet now request connection namespaceManager router =
     (case setParamsParse (rq_params request) of
        None \<Rightarrow> (errorResponse (requestId request) INTERNAL ''Failed to set value'', redis router)
      | Some (key, v, ttl) \<Rightarrow>
          (if \<not> validateKey key (maxKey (limits connection))
           then (errorResponse (requestId request) INVALID_KEY ''Key too long or invalid'',
                 redis router)
           else if \<not> validateValue v (maxVal (limits connection))
           then (errorResponse (requestId request) INVALID_VALUE ''Value too large'', redis router)
           else case ensureNamespace namespaceManager key of
                  None \<Rightarrow> (errorResponse (requestId request) RESTRICTED ''Key outside namespace'',
                           redis router)
                | Some fullKey \<Rightarrow>
                    (case kvSet now (redis router) fullKey v ttl of
                       (None, r) \<Rightarrow>
                         (errorResponse (requestId request) INTERNAL ''Failed to set value'', r)
                     | (Some u, r) \<Rightarrow> (okResponse (requestId request) (ROk True), r))))"

definition handleDel ::
  "int \<Rightarrow> KVRequest \<Rightarrow> ClientConnection \<Rightarrow> NamespaceManager \<Rightarrow> Router \<Rightarrow> KVResponse \<times> Redis" where
  "handleDel now request connection namespaceManager router =
     (case keyParamsParse (rq_params request) of
        None \<Rightarrow> (errorResponse (requestId request) INTERNAL ''Failed to delete key'', redis router)
      | Some key \<Rightarrow>
          (if \<not> validateKey key (maxKey (limits connection))
           then (errorResponse (requestId request) INVALID_KEY ''Key too long or invalid'',
                 redis router)
           else case ensureNamespace namespaceManager key of
                  None \<Rightarrow> (errorResponse (requestId request) RESTRICTED ''Key outside namespace'',
                           redis router)
                | Some fullKey \<Rightarrow>
                    (case kvDel now (redis router) fullKey of
                       (None, r) \<Rightarrow>
                         (errorResponse (requestId request) INTERNAL ''Failed to delete key'', r)
                     | (Some deleted, r) \<Rightarrow>
                         (okResponse (requestId request) (RDeleted deleted), r))))"

definition handleExists ::
  "int \<Rightarrow> KVRequest \<Rightarrow> ClientConnection \<Rightarrow> NamespaceManager \<Rightarrow> Router \<Rightarrow> KVResponse \<times> Redis" where
  "handleExists now request connection namespaceManager router =
     (case keyParamsParse (rq_params request) of
        None \<Rightarrow> (errorResponse (requestId request) INTERNAL ''Failed to check existence'',
                 redis router)
      | Some key \<Rightarrow>
          (if \<not> validateKey key (maxKey (limits connection))
           then (errorResponse (requestId request) INVALID_KEY ''Key too long or invalid'',
                 redis router)
           else case ensureNamespace namespaceManager key of
                  None \<Rightarrow> (errorResponse (requestId request) RESTRICTED ''Key outside namespace'',
                           redis router)
                | Some fullKey \<Rightarrow>
                    (case kvExists now (redis router) fullKey of
                       (None, r) \<Rightarrow>
                         (errorResponse (requestId request) INTERNAL ''Failed to check existence'', r)
                     | (Some b, r) \<Rightarrow> (okResponse (requestId request) (RExists b), r))))"

text \<open>The loop of \<^verbatim>\<open>handleMget\<close> over the keys: it returns at the first key that fails.\<close>

fun resolveKeys ::
  "NamespaceManager \<Rightarrow> int \<Rightarrow> string list \<Rightarrow> string list \<Rightarrow> (ErrorCode \<times> string) + string list" where
  "resolveKeys namespaceManager maxLength [] fullKeys = Inr fullKeys"
| "resolveKeys namespaceManager maxLength (key # keys) fullKeys =
     (if \<not> validateKey key maxLength then Inl (INVALID_KEY, ''Key too long: '' @ key)
      else case ensureNamespace namespaceManager key of
             None \<Rightarrow> Inl (RESTRICTED, ''Key outside namespace: '' @ key)
           | Some fullKey \<Rightarrow> resolveKeys namespaceManager maxLength keys (fullKeys @ [fullKey]))"

definition handleMget ::
  "int \<Rightarrow> KVRequest \<Rightarrow> ClientConnection \<Rightarrow> NamespaceManager \<Rightarrow> Router \<Rightarrow> KVResponse \<times> Redis" where
  "handleMget now request connection namespaceManager router =
     (case mgetParamsParse (rq_params request) of
        None \<Rightarrow> (errorResponse (requestId request) INTERNAL ''Failed to get multiple values'',
                 redis router)
      | Some keys \<Rightarrow>
          (if \<not> validateMgetCount (int (length keys)) (mgetMax (limits connection))
           then (errorResponse (requestId request) PAYLOAD_TOO_LARGE ''Too many keys in mget'',
                 redis router)
           else case resolveKeys namespaceManager (maxKey (limits connection)) keys [] of
                  Inl (code, message) \<Rightarrow> (errorResponse (requestId request) code message, redis router)
                | Inr fullKeys \<Rightarrow>
                    (case kvMget now (redis router) fullKeys of
                       (None, r) \<Rightarrow>
                         (errorResponse (requestId request) INTERNAL
                            ''Failed to get multiple values'', r)
                     | (Some vs, r) \<Rightarrow> (okResponse (requestId request) (RValues vs), r))))"

definition handleExpire ::
  "int \<Rightarrow> KVRequest \<Rightarrow> ClientConnection \<Rightarrow> NamespaceManager \<Rightarrow> Router \<Rightarrow> KVResponse \<times> Redis" where
  "handleExpire now request connection namespaceManager router =
     (case expireParamsParse (rq_params request) of
        None \<Rightarrow> (errorResponse (requestId request) INTERNAL ''Failed to set expiration'',
                 redis router)
      | Some (key, ttl) \<Rightarrow>
          (if \<not> validateKey key (maxKey (limits connection))
           then (errorResponse (requestId request) INVALID_KEY ''Key too long or invalid'',
                 redis router)
           else case ensureNamespace namespaceManager key of
                  None \<Rightarrow> (errorResponse (requestId request) RESTRICTED ''Key outside namespace'',
                           redis router)
                | Some fullKey \<Rightarrow>
                    (case kvExpire now (redis router) fullKey ttl of
                       (None, r) \<Rightarrow>
                         (errorResponse (requestId request) INTERNAL ''Failed to set expiration'', r)
                     | (Some ok, r) \<Rightarrow> (okResponse (requestId request) (ROk ok), r))))"

definition handleTtl ::
  "int \<Rightarrow> KVRequest \<Rightarrow> ClientConnection \<Rightarrow> NamespaceManager \<Rightarrow> Router \<Rightarrow> KVResponse \<times> Redis" where
  "handleTtl now request connection namespaceManager router =
     (case keyParamsParse (rq_params request) of
        None \<Rightarrow> (errorResponse (requestId request) INTERNAL ''Failed to get TTL'', redis router)
      | Some key \<Rightarrow>
          (if \<not> validateKey key (maxKey (limits connection))
           then (errorResponse (requestId request) INVALID_KEY ''Key too long or invalid'',
                 redis router)
           else case ensureNamespace namespaceManager key of
                  None \<Rightarrow> (errorResponse (requestId request) RESTRICTED ''Key outside namespace'',
                           redis router)
                | Some fullKey \<Rightarrow>
                    (case kvTtl now (redis router) fullKey of
                       (None, r) \<Rightarrow>
                         (errorResponse (requestId request) INTERNAL ''Failed to get TTL'', r)
                     | (Some t, r) \<Rightarrow> (okResponse (requestId request) (RTtl t), r))))"

text \<open>The \<^verbatim>\<open>switch\<close> of \<^verbatim>\<open>handleRequest\<close> over the method name.\<close>

definition dispatch ::
  "int \<Rightarrow> KVRequest \<Rightarrow> ClientConnection \<Rightarrow> NamespaceManager \<Rightarrow> Router \<Rightarrow> KVResponse \<times> Redis" where
  "dispatch now request connection namespaceManager router =
     (let m = rq_method request
      in if m = ''get_info'' then handleGetInfo request connection router
         else if m = ''get'' then handleGet now request connection namespaceManager router
         else if m = ''set'' then handleSet now request connection namespaceManager router
         else if m = ''del'' then handleDel now request connection namespaceManager router
         else if m = ''exists'' then handleExists now request connection namespaceManager router
         else if m = ''mget'' then handleMget now request connection namespaceManager router
         else if m = ''expire'' then handleExpire now request connection namespaceManager router
         else if m = ''ttl'' then handleTtl now request connection namespaceManager router
         else (errorResponse (requestId request) NOT_IMPLEMENTED
                 (''Method '' @ m @ '' not implemented''), redis router))"

text \<open>
  \<^verbatim>\<open>hashKey(params.key || '')\<close>: empty for a falsy key, the first eight characters of the
  base-64 of a string key; \<^verbatim>\<open>Buffer.from\<close> throws a \<^verbatim>\<open>TypeError\<close> (\<open>None\<close>) on a number or
  a boolean.
\<close>

definition hashKey :: "Env \<Rightarrow> json option \<Rightarrow> string option" where
  "hashKey env key =
     (case key of
        None \<Rightarrow> Some []
      | Some v \<Rightarrow>
          (if \<not> truthy v then Some []
           else case v of
                  JStr s \<Rightarrow> Some (substring (toBase64 (bufferFromString (unitsOf s))) 0 8)
                | JArr xs \<Rightarrow> map_option (\<lambda>b. substring (toBase64 b) 0 8) (bufferFromOther env v)
                | JObj fs \<Rightarrow> map_option (\<lambda>b. substring (toBase64 b) 0 8) (bufferFromOther env v)
                | _ \<Rightarrow> None))"

text \<open>\<^verbatim>\<open>params.value?.length || 0\<close>.\<close>

definition valueSize :: "json option \<Rightarrow> json" where
  "valueSize v =
     (case v of
        Some (JStr s) \<Rightarrow> JNum (int (length s))
      | Some (JArr xs) \<Rightarrow> JNum (int (length xs))
      | Some (JObj fs) \<Rightarrow>
          (case map_of fs ''length'' of
             Some l \<Rightarrow> (if truthy l then l else JNum 0)
           | None \<Rightarrow> JNum 0)
      | _ \<Rightarrow> JNum 0)"

definition auditEntryFor :: "Clock \<Rightarrow> KVRequest \<Rightarrow> ClientConnection \<Rightarrow> KVResponse \<Rightarrow> string \<Rightarrow> AuditEntry" where
  "auditEntryFor clk request connection response kh =
     \<lparr> ae_method = rq_method request,
       ae_keyHash = kh,
       ae_valueSize = valueSize (map_of (rq_params request) ''value''),
       ae_status = (if rs_error response \<noteq> None then ''error'' else ''success''),
       ae_errorCode = map_option fst (rs_error response),
       ae_latency = t_end clk - t_start clk,
       ae_clientPubkey = pubkey connection,
       ae_timestamp = None \<rparr>"

text \<open>
  The part of \<^verbatim>\<open>handleRequest\<close> after the four checks: the method handler runs, the response
  is cached, its size is charged to the byte window and the audit record is written.
  Building the audit record can throw (\<^const>\<open>hashKey\<close>); the catch block then answers
  \<^verbatim>\<open>INTERNAL\<close>.
\<close>

definition completeRequest ::
  "Env \<Rightarrow> Clock \<Rightarrow> json \<Rightarrow> KVRequest \<Rightarrow> NamespaceManager \<Rightarrow> ClientConnection \<Rightarrow> Router \<Rightarrow>
   KVResponse option \<times> Router \<times> ClientConnection" where
  "completeRequest env clk request validatedRequest namespaceManager connection router =
     (case dispatch (t_backend clk) validatedRequest connection namespaceManager router of
        (response, redis1) \<Rightarrow>
          (let cache2 = cacheSet (t_cacheSet clk) (idempotencyCache router)
                 (pubkey connection) (rq_id validatedRequest) response;
               connection3 = consumeBudget (t_consume clk) (t_usage clk)
                 connection (stringifyResponse env response);
               router3 = router\<lparr> idempotencyCache := cache2, redis := redis1 \<rparr>
           in case hashKey env (map_of (rq_params validatedRequest) ''key'') of
                None \<Rightarrow>
                  (Some (errorResponse (jprop request ''id'') INTERNAL ''Internal server error''),
                   router3, connection3)
              | Some kh \<Rightarrow>
                  (Some response,
                   router3\<lparr> redis := auditLog (t_audit clk) (auditKey env) redis1
                       (auditEntryFor clk validatedRequest connection3 response kh) \<rparr>,
                   connection3)))"

text \<open>
  \<^verbatim>\<open>handleRequest\<close>.  The result is \<open>None\<close> when the promise is rejected: the catch block
  reads \<^verbatim>\<open>request.id\<close>, which throws when the request is \<^verbatim>\<open>null\<close>.
\<close>

definition handleRequest ::
  "Env \<Rightarrow> Clock \<Rightarrow> json \<Rightarrow> ClientConnection \<Rightarrow> Router \<Rightarrow>
   KVResponse option \<times> Router \<times> ClientConnection" where
  "handleRequest env clk request connection router =
     (case getNamespaceManager router connection of (namespaceManager, router1) \<Rightarrow>
      case baseRequestSchemaParse request of
        None \<Rightarrow>
          (if request = JNull then (None, router1, connection)
           else (Some (errorResponse (jprop request ''id'') INTERNAL ''Internal server error''),
                 router1, connection))
      | Some validatedRequest \<Rightarrow>
          (case cacheGet (t_cacheGet clk) (idempotencyCache router1) (pubkey connection)
                  (rq_id validatedRequest) of
             (Some cached, cache1) \<Rightarrow>
               (Some cached, router1\<lparr> idempotencyCache := cache1 \<rparr>, connection)
           | (None, cache1) \<Rightarrow>
               (let router2 = router1\<lparr> idempotencyCache := cache1 \<rparr>
                in if rq_method validatedRequest \<notin> set (allowedMethods connection)
                   then (Some (errorResponse (requestId validatedRequest) RESTRICTED
                                 (''Method '' @ rq_method validatedRequest @ '' not allowed'')),
                         router2, connection)
                   else case checkLimit (t_rate clk) connection of
                          (False, connection1) \<Rightarrow>
                            (Some (errorResponse (requestId validatedRequest) RATE_LIMITED
                                     ''Rate limit exceeded''), router2, connection1)
                        | (True, connection1) \<Rightarrow>
                            (case checkBudget (t_budget clk) connection1
                                    (stringifyRequest env request) of
                               (False, connection2) \<Rightarrow>
                                 (Some (errorResponse (requestId validatedRequest) RATE_LIMITED
                                          ''Byte budget exceeded''), router2, connection2)
                             | (True, connection2) \<Rightarrow>
                                 completeRequest env clk request validatedRequest namespaceManager
                                   connection2 router2))))"

section \<open>Server orchestrator (\<^verbatim>\<open>src/server.ts\<close>)\<close>

record Event =
  ev_id :: string
  ev_kind :: int
  ev_pubkey :: string
  ev_created_at :: int
  ev_content :: string
  ev_tags :: "string list list"
  ev_sig :: "string option"

record Server =
  sv_connections :: "string \<rightharpoonup> ClientConnection"
  sv_router :: Router

text \<open>
  The first log line formats \<^verbatim>\<open>new Date(event.created_at * 1000).toISOString()\<close> outside
  the \<^verbatim>\<open>try\<close> block; \<^verbatim>\<open>toISOString\<close> throws a \<^verbatim>\<open>RangeError\<close> beyond the range of a date.
\<close>

definition validDate :: "int \<Rightarrow> bool" where
  "validDate ms = (- 8640000000000000 \<le> ms \<and> ms \<le> 8640000000000000)"

definition createDefaultConnection :: "Env \<Rightarrow> string \<Rightarrow> ClientConnection" where
  "createDefaultConnection env pk =
     \<lparr> pubkey = pk,
       namespace = configNamespace env,
       allowedMethods = [''get_info'', ''get'', ''set'', ''del'', ''exists'', ''mget'', ''expire'', ''ttl''],
       limits = \<lparr> mps = mps (configLimits env), bps = bps (configLimits env),
                  maxKey = maxKey (configLimits env), maxVal = maxVal (configLimits env),
                  mgetMax = mgetMax (configLimits env) \<rparr>,
       rateLimitState = None \<rparr>"

text \<open>
  \<^verbatim>\<open>handleIncomingEvent\<close>.  The result is the response handed to \<^verbatim>\<open>sendResponse\<close>
  (encrypted, signed and published there), or \<open>None\<close> when the event is dropped.
\<close>

definition handleIncomingEvent :: "Env \<Rightarrow> Clock \<Rightarrow> Event \<Rightarrow> Server \<Rightarrow> KVResponse option \<times> Server" where
  "handleIncomingEvent env clk event server =
     (if \<not> validDate (ev_created_at event * 1000) then (None, server)
      else if ev_sig event = None \<or> ev_sig event = Some [] then (None, server)
      else case decrypt env (ev_content event) (ev_pubkey event) of
             None \<Rightarrow> (None, server)
           | Some decrypted \<Rightarrow>
               (case jsonParse env decrypted of
                  None \<Rightarrow> (None, server)
                | Some request \<Rightarrow>
                    (if request = JNull then (None, server)
                     else let connection =
                                (case sv_connections server (ev_pubkey event) of
                                   Some c \<Rightarrow> c
                                 | None \<Rightarrow>
                                     (case loadConnectionFromRegistry env (ev_pubkey event) of
                                        Some c \<Rightarrow> c
                                      | None \<Rightarrow> createDefaultConnection env (ev_pubkey event)))
                          in case handleRequest env clk request connection (sv_router server) of
                               (response, router', connection') \<Rightarrow>
                                 (response,
                                  \<lparr> sv_connections = (sv_connections server)(ev_pubkey event \<mapsto> connection'),
                                    sv_router = router' \<rparr>))))"

text \<open>A run of requests of one connection, handled one after the other.\<close>

fun handleRequests ::
  "Env \<Rightarrow> (Clock \<times> json) list \<Rightarrow> ClientConnection \<Rightarrow> Router \<Rightarrow>
   KVResponse option list \<times> Router \<times> ClientConnection" where
  "handleRequests env [] connection router = ([], router, connection)"
| "handleRequests env ((clk, request) # rest) connection router =
     (case handleRequest env clk request connection router of
        (response, router1, connection1) \<Rightarrow>
          (case handleRequests env rest connection1 router1 of
             (responses, router2, connection2) \<Rightarrow> (response # responses, router2, connection2)))"

section \<open>Vocabulary of the properties\<close>

text \<open>The keys a key-value command carries; the audit list commands carry none.\<close>

fun kvKeys :: "RedisCommand \<Rightarrow> string list" where
  "kvKeys (GET k) = [k]"
| "kvKeys (SET k v ex) = [k]"
| "kvKeys (DEL k) = [k]"
| "kvKeys (EXISTS k) = [k]"
| "kvKeys (MGET ks) = ks"
| "kvKeys (EXPIRE k t) = [k]"
| "kvKeys (TTL k) = [k]"
| "kvKeys (LPUSH k x) = []"
| "kvKeys (LTRIM k a b) = []"

fun isLpush :: "RedisCommand \<Rightarrow> bool" where
  "isLpush (LPUSH k x) = True"
| "isLpush cmd = False"

text \<open>The key parameters of a request: \<^verbatim>\<open>params.key\<close> and the elements of \<^verbatim>\<open>params.keys\<close>.\<close>

fun jsonStrings :: "json list \<Rightarrow> string list" where
  "jsonStrings [] = []"
| "jsonStrings (JStr s # xs) = s # jsonStrings xs"
| "jsonStrings (x # xs) = jsonStrings xs"

definition paramKeys :: "(string \<times> json) list \<Rightarrow> string list" where
  "paramKeys ps =
     (case map_of ps ''key'' of Some (JStr k) \<Rightarrow> [k] | _ \<Rightarrow> []) @
     (case map_of ps ''keys'' of Some (JArr xs) \<Rightarrow> jsonStrings xs | _ \<Rightarrow> [])"

text \<open>
  The router creates every namespace manager itself, from the namespace it files it under.
\<close>

definition managersConsistent :: "Router \<Rightarrow> bool" where
  "managersConsistent router =
     (\<forall>ns m. namespaceManagers router ns = Some m \<longrightarrow> m = newNamespaceManager ns)"

text \<open>
  A request passes the four checks of \<^verbatim>\<open>handleRequest\<close>: it parses, no response is cached for
  its id, its method is allowed, the rate check and the byte-budget check accept it.
\<close>

definition passesChecks :: "Env \<Rightarrow> Clock \<Rightarrow> json \<Rightarrow> ClientConnection \<Rightarrow> Router \<Rightarrow> bool" where
  "passesChecks env clk request connection router =
     (case baseRequestSchemaParse request of
        None \<Rightarrow> False
      | Some validatedRequest \<Rightarrow>
          fst (cacheGet (t_cacheGet clk) (idempotencyCache router) (pubkey connection)
                 (rq_id validatedRequest)) = None \<and>
          rq_method validatedRequest \<in> set (allowedMethods connection) \<and>
          fst (checkLimit (t_rate clk) connection) \<and>
          fst (checkBudget (t_budget clk) (snd (checkLimit (t_rate clk) connection))
                 (stringifyRequest env request)))"

section \<open>A concrete gateway\<close>

text \<open>The connection of the specification's scenarios and a runtime for it.\<close>

definition clockAt :: "int \<Rightarrow> Clock" where
  "clockAt t =
     \<lparr> t_start = t, t_cacheGet = t, t_rate = t, t_budget = t, t_backend = t, t_cacheSet = t,
       t_consume = t, t_usage = t, t_end = t, t_audit = t \<rparr>"

definition demoLimits :: Limits where
  "demoLimits = \<lparr> mps = 60, bps = 1048576, maxKey = 256, maxVal = 65536, mgetMax = 16 \<rparr>"

definition demoConnection :: ClientConnection where
  "demoConnection =
     \<lparr> pubkey = ''c0ffee'',
       namespace = ''appA:'',
       allowedMethods = [''get_info'', ''get'', ''set'', ''del'', ''exists'', ''mget'', ''expire'', ''ttl''],
       limits = demoLimits,
       rateLimitState = None \<rparr>"

definition demoRequest :: "string \<Rightarrow> string \<Rightarrow> (string \<times> json) list \<Rightarrow> json" where
  "demoRequest i m ps = JObj [(''method'', JStr m), (''params'', JObj ps), (''id'', JStr i)]"

definition demoEnv :: Env where
  "demoEnv =
     \<lparr> stringifyRequest = (\<lambda>request. 50),
       stringifyResponse = (\<lambda>response. 200),
       bufferFromOther = (\<lambda>v. None),
       auditKey = ''default:__audit'',
       decrypt = (\<lambda>content sender. Some content),
       jsonParse = (\<lambda>text. if text = ''get_info'' then Some (demoRequest ''r-1'' ''get_info'' [])
                             else None),
       loadConnectionFromRegistry = (\<lambda>pk. None),
       configNamespace = ''default:'',
       configLimits = demoLimits \<rparr>"

definition emptyRedis :: Redis where
  "emptyRedis = \<lparr> rd_entries = Map.empty, rd_up = True, rd_commands = [] \<rparr>"

definition newRouter :: Router where
  "newRouter =
     \<lparr> idempotencyCache = Map.empty,
       namespaceManagers = Map.empty,
       redis = emptyRedis,
       dmCrypto = \<lparr> preferNip44 = True, nip44Available = True, nip04Available = True \<rparr> \<rparr>"

definition newServer :: Server where
  "newServer = \<lparr> sv_connections = Map.empty, sv_router = newRouter \<rparr>"

definition demoEvent :: "int \<Rightarrow> Event" where
  "demoEvent createdAt =
     \<lparr> ev_id = ''e1'', ev_kind = 23194, ev_pubkey = ''c0ffee'', ev_created_at = createdAt,
       ev_content = ''get_info'', ev_tags = [[''p'', ''5e7e7'']], ev_sig = Some ''5167'' \<rparr>"


text \<open>
  Commands of a method handler: none is an audit push, and every key they carry is what the
  namespace guard returned for a key parameter of the request.
\<close>

definition guardedCommands :: "NamespaceManager \<Rightarrow> (string \<times> json) list \<Rightarrow> RedisCommand list \<Rightarrow> bool" where
  "guardedCommands namespaceManager ps issued =
     (\<forall>cmd \<in> set issued. \<not> isLpush cmd \<and>
        (\<forall>fullKey \<in> set (kvKeys cmd).
           \<exists>key \<in> set (paramKeys ps). ensureNamespace namespaceManager key = Some fullKey))"

definition requestKeys :: "json \<Rightarrow> string list" where
  "requestKeys request =
     (case jprop request ''params'' of Some (JObj ps) \<Rightarrow> paramKeys ps | _ \<Rightarrow> [])"

text \<open>A connection allowed to read only, one limited to a single request per window, and one
  with a byte budget of 100.\<close>

definition readOnlyConnection :: ClientConnection where
  "readOnlyConnection = demoConnection\<lparr> allowedMethods := [''get_info'', ''get''] \<rparr>"

definition tightConnection :: ClientConnection where
  "tightConnection = demoConnection\<lparr> limits := demoLimits\<lparr> mps := 1 \<rparr> \<rparr>"

definition smallBudgetConnection :: ClientConnection where
  "smallBudgetConnection = demoConnection\<lparr> limits := demoLimits\<lparr> bps := 100 \<rparr> \<rparr>"

text \<open>
  Three requests of the single-request connection: \<^verbatim>\<open>a\<close> at 0 ms, then \<^verbatim>\<open>r\<close> at 1 s and the
  same \<^verbatim>\<open>r\<close> again at 60 s.
\<close>

definition replayRun :: "KVResponse option list \<times> Router \<times> ClientConnection" where
  "replayRun =
     handleRequests demoEnv
       [(clockAt 0, demoRequest ''a'' ''get_info'' []),
        (clockAt 1000, demoRequest ''r'' ''get_info'' []),
        (clockAt 60000, demoRequest ''r'' ''get_info'' [])]
       tightConnection newRouter"

text \<open>Requests of the scenarios.\<close>

definition infoRequest :: json where
  "infoRequest = demoRequest ''r-1'' ''get_info'' []"

definition setRequest :: json where
  "setRequest = demoRequest ''r-7'' ''set'' [(''key'', JStr ''a''), (''value'', JStr ''eA=='')]"

definition mgetRequest :: json where
  "mgetRequest = demoRequest ''r-3'' ''mget'' [(''keys'', JArr [JStr ''appA:x'', JStr ''y''])]"

definition foreignGetRequest :: json where
  "foreignGetRequest = demoRequest ''r-2'' ''get'' [(''key'', JStr ''other:x'')]"

definition lenientSetRequest :: KVRequest where
  "lenientSetRequest =
     \<lparr> rq_method = ''set'',
       rq_params = [(''key'', JStr ''a''), (''value'', JStr ''!!SGVsbG8'')],
       rq_id = ''r-9'' \<rparr>"

text \<open>
  A connection with keys of at most four characters and values of at most two bytes.  A set
  request to it whose key has seven characters and whose value \<^verbatim>\<open>SGVsbG8=\<close> decodes to the
  five bytes \<^verbatim>\<open>Hello\<close>, as it arrives and as the base schema parses it; and a set request
  with the same value and the key \<^verbatim>\<open>a\<close>.
\<close>

definition narrowConnection :: ClientConnection where
  "narrowConnection = demoConnection\<lparr> limits := demoLimits\<lparr> maxKey := 4, maxVal := 2 \<rparr> \<rparr>"

definition longKeySetRequest :: json where
  "longKeySetRequest =
     demoRequest ''r-8'' ''set'' [(''key'', JStr ''toolong''), (''value'', JStr ''SGVsbG8='')]"

definition longKeySet :: KVRequest where
  "longKeySet =
     \<lparr> rq_method = ''set'',
       rq_params = [(''key'', JStr ''toolong''), (''value'', JStr ''SGVsbG8='')],
       rq_id = ''r-8'' \<rparr>"

definition oversizeSet :: KVRequest where
  "oversizeSet =
     \<lparr> rq_method = ''set'',
       rq_params = [(''key'', JStr ''a''), (''value'', JStr ''SGVsbG8='')],
       rq_id = ''r-10'' \<rparr>"


text \<open>A set of the value \<^verbatim>\<open>YWJjZA==\<close> (the bytes \<^verbatim>\<open>abcd\<close>) followed by a get of the same key.\<close>

definition roundTripRun :: "KVResponse option list \<times> Router \<times> ClientConnection" where
  "roundTripRun =
     handleRequests demoEnv
       [(clockAt 0, demoRequest ''r-1'' ''set'' [(''key'', JStr ''k''), (''value'', JStr ''YWJjZA=='')]),
        (clockAt 1, demoRequest ''r-2'' ''get'' [(''key'', JStr ''k'')])]
       demoConnection newRouter"
section \<open>Properties of the string primitives and of the namespace guard\<close>

lemma startsWith_prefix: "startsWith s p \<longleftrightarrow> prefix p s"
  by (induction s p rule: startsWith.induct) auto

lemma includesStr_sublist: "includesStr s p \<longleftrightarrow> sublist p s"
  by (induction s) (auto simp: startsWith_prefix sublist_Cons_right)

lemma endsWith_suffix: "endsWith s p \<longleftrightarrow> suffix p s"
  by (simp add: endsWith_def startsWith_prefix suffix_to_prefix)

lemma indexOf_notin: "ch \<notin> set s \<Longrightarrow> indexOf s ch = - 1"
  by (induction s) (auto simp: Let_def)

lemma indexOf_in: "ch \<in> set s \<Longrightarrow> indexOf s ch = int (length (takeWhile (\<lambda>c. c \<noteq> ch) s))"
  by (induction s) (auto simp: Let_def indexOf_notin)

lemma substring_take: "0 \<le> b \<Longrightarrow> substring s 0 b = take (nat b) s"
  by (auto simp: substring_def Let_def min_def max_def)



lemma dots_iff: "(\<exists>n \<in> {3..length k}. sublist (replicate n CHR ''.'') k) \<longleftrightarrow> sublist ''...'' k"
proof
  assume "\<exists>n \<in> {3..length k}. sublist (replicate n CHR ''.'') k"
  then obtain n where n: "3 \<le> n" "sublist (replicate n CHR ''.'') k" by auto
  have "replicate n CHR ''.'' = ''...'' @ replicate (n - 3) CHR ''.''"
    using n(1) by (simp add: numeral_3_eq_3 flip: replicate_add replicate_Suc)
  then have "sublist ''...'' (replicate n CHR ''.'')" by (metis sublist_appendI append_Nil)
  then show "sublist ''...'' k" using n(2) sublist_order.order_trans by blast
next
  assume a: "sublist ''...'' k"
  then have "3 \<le> length k" using sublist_length_le by fastforce
  moreover have "replicate 3 CHR ''.'' = ''...''" by (simp add: numeral_3_eq_3)
  ultimately show "\<exists>n \<in> {3..length k}. sublist (replicate n CHR ''.'') k"
    using a by (intro bexI[of _ 3]) auto
qed




lemma claimedControlChar_eq: "claimedControlChar c = isControlChar c"
  by (auto simp: claimedControlChar_def isControlChar_def Let_def)

lemma sub_trans: "sublist (p @ q) k \<Longrightarrow> sublist p k"
  unfolding sublist_def by (metis append.assoc)

lemma esc_eq: "list_ex (\<lambda>pattern. includesStr k pattern) escapePatterns \<longleftrightarrow> (\<exists>p \<in> set claimedForbiddenLiterals. sublist p k)"
proof -
  have a: "sublist ''../'' k \<Longrightarrow> sublist ''..'' k" using sub_trans[of "''..''" "''/''" k] by simp
  have b: "sublist [CHR ''.'', CHR ''.'', CHR 0x5C] k \<Longrightarrow> sublist ''..'' k"
    using sub_trans[of "''..''" "[CHR 0x5C]" k] by simp
  show ?thesis
    unfolding escapePatterns_def claimedForbiddenLiterals_def includesStr_sublist list_ex_iff
    using a b by (simp; blast)
qed

lemma forbidden_eq: "hasEscapeAttempt k \<longleftrightarrow> claimedForbidden k"
  unfolding hasEscapeAttempt_def claimedForbidden_def dots_iff esc_eq
  by (simp add: suspiciousPatterns_def includesStr_sublist
      reControl_def reOnlyWhitespace_def reMultipleDots_def claimedControlChar_eq list_ex_iff list_all_iff; blast)





lemma first_colon:
  assumes "ch \<in> set k"
  shows "(i < length k \<and> k ! i = ch \<and> (\<forall>j < i. k ! j \<noteq> ch)) \<longleftrightarrow> i = length (takeWhile (\<lambda>c. c \<noteq> ch) k)"
proof -
  let ?P = "\<lambda>c. c \<noteq> ch"
  let ?n = "length (takeWhile ?P k)"
  have "takeWhile ?P k \<noteq> k" using assms by auto
  then have "?n \<noteq> length k" by (metis takeWhile_eq_take take_all order_refl)
  then have n: "?n < length k" using length_takeWhile_le[of ?P k] by linarith
  have kn: "k ! ?n = ch" using nth_length_takeWhile[OF n] by simp
  have before: "k ! j \<noteq> ch" if "j < ?n" for j
  proof -
    have "takeWhile ?P k ! j \<in> set (takeWhile ?P k)" using that by simp
    then have "?P (takeWhile ?P k ! j)" using set_takeWhileD by fast
    then show ?thesis using takeWhile_nth[OF that] by simp
  qed
  show ?thesis
  proof
    assume a: "i < length k \<and> k ! i = ch \<and> (\<forall>j < i. k ! j \<noteq> ch)"
    have "\<not> i < ?n" using a before by blast
    moreover have "\<not> ?n < i" using a kn by blast
    ultimately show "i = ?n" by simp
  next
    assume "i = ?n"
    then show "i < length k \<and> k ! i = ch \<and> (\<forall>j < i. k ! j \<noteq> ch)"
      using n kn before by simp
  qed
qed

lemma wrong_ns_iff:
  "hasWrongNamespace nm k \<longleftrightarrow>
     (\<exists>i \<in> {1..<length k}. k ! i = CHR '':'' \<and> (\<forall>j < i. k ! j \<noteq> CHR '':'') \<and> take (Suc i) k \<noteq> nm_namespace nm)"
proof (cases "CHR '':'' \<in> set k")
  case False
  then have "\<And>i. i < length k \<Longrightarrow> k ! i \<noteq> CHR '':''" by (metis nth_mem)
  then have "\<not> (\<exists>i \<in> {1..<length k}. k ! i = CHR '':'' \<and> (\<forall>j < i. k ! j \<noteq> CHR '':'') \<and> take (Suc i) k \<noteq> nm_namespace nm)"
    by simp
  moreover have "\<not> hasWrongNamespace nm k"
    using False by (simp add: hasWrongNamespace_def indexOf_notin)
  ultimately show ?thesis by simp
next
  case True
  let ?n = "length (takeWhile (\<lambda>c. c \<noteq> CHR '':'') k)"
  have fc: "(i < length k \<and> k ! i = CHR '':'' \<and> (\<forall>j < i. k ! j \<noteq> CHR '':'')) \<longleftrightarrow> i = ?n" for i
    using first_colon[OF True] by blast
  have lhs: "hasWrongNamespace nm k \<longleftrightarrow> (0 < ?n \<and> take (Suc ?n) k \<noteq> nm_namespace nm)"
    by (simp add: hasWrongNamespace_def indexOf_in[OF True] Let_def substring_take nat_add_distrib)
  have rhs: "(\<exists>i \<in> {1..<length k}. k ! i = CHR '':'' \<and> (\<forall>j < i. k ! j \<noteq> CHR '':'') \<and> take (Suc i) k \<noteq> nm_namespace nm)
      \<longleftrightarrow> (0 < ?n \<and> take (Suc ?n) k \<noteq> nm_namespace nm)" (is "?L \<longleftrightarrow> ?R")
  proof
    assume ?L
    then obtain i where i: "1 \<le> i" "i < length k" "k ! i = CHR '':''" "\<forall>j < i. k ! j \<noteq> CHR '':''"
        "take (Suc i) k \<noteq> nm_namespace nm" by auto
    then have e: "i = ?n" using fc by blast
    from i(1) e have "0 < ?n" by linarith
    then show ?R using i(5) e by blast
  next
    assume r: ?R
    have p: "?n < length k \<and> k ! ?n = CHR '':'' \<and> (\<forall>j < ?n. k ! j \<noteq> CHR '':'')"
      using fc[of ?n] by simp
    from r have "1 \<le> ?n" by linarith
    with p have m: "?n \<in> {1..<length k}" by (simp only: atLeastLessThan_iff)
    from p r have "k ! ?n = CHR '':'' \<and> (\<forall>j < ?n. k ! j \<noteq> CHR '':'') \<and> take (Suc ?n) k \<noteq> nm_namespace nm"
      by blast
    with m show ?L by (rule_tac x = ?n in bexI)
  qed
  show ?thesis using lhs rhs by simp
qed

lemma guard_eq:
  "endsWith N '':'' \<Longrightarrow> ensureNamespace (newNamespaceManager N) k = namespaceGuard_amended N k"
proof -
  assume "endsWith N '':''"
  then have nm: "nm_namespace (newNamespaceManager N) = N" by (simp add: newNamespaceManager_def)
  show ?thesis
    unfolding ensureNamespace_def namespaceGuard_amended_def forbidden_eq startsWith_prefix wrong_ns_iff nm
    by (rule refl)
qed



lemma ensureNamespace_bare_example:
  "ensureNamespace (newNamespaceManager ''appA:'') ''user'' = Some ''appA:user''"
  by (simp add: ensureNamespace_def newNamespaceManager_def endsWith_def hasEscapeAttempt_def
      escapePatterns_def suspiciousPatterns_def reControl_def reOnlyWhitespace_def
      reMultipleDots_def isControlChar_def isJsSpace_def hasWrongNamespace_def)

lemma ensureNamespace_leading_colon_example:
  "ensureNamespace (newNamespaceManager ''app:'') '':a:b'' = Some ''app::a:b''"
  by (simp add: ensureNamespace_def newNamespaceManager_def endsWith_def hasEscapeAttempt_def
      escapePatterns_def suspiciousPatterns_def reControl_def reOnlyWhitespace_def
      reMultipleDots_def isControlChar_def isJsSpace_def hasWrongNamespace_def)

lemma namespaceGuard_claimed_leading_colon_example:
  "namespaceGuard_claimed ''app:'' '':a:b'' = None"
proof -
  have "\<not> claimedForbidden '':a:b''"
    unfolding claimedForbidden_def dots_iff
    by (simp add: claimedForbiddenLiterals_def claimedControlChar_def isJsSpace_def
        sublist_Cons_right)
  moreover have "\<exists>i \<in> {1..<length '':a:b''}.
      '':a:b'' ! i = CHR '':'' \<and> take (Suc i) '':a:b'' \<noteq> ''app:''"
    by (rule bexI[of _ 2]) simp_all
  ultimately show ?thesis by (simp add: namespaceGuard_claimed_def)
qed


section \<open>Properties of the windows, the handlers and the router\<close>

lemma stateOrInit_simps:
  "stateOrInit (c\<lparr> rateLimitState := Some s \<rparr>) = s"
  "rateLimitState c = None \<Longrightarrow> stateOrInit c = \<lparr> requests = [], bytes = [] \<rparr>"
  "rateLimitState c = Some s \<Longrightarrow> stateOrInit c = s"
  by (simp_all add: stateOrInit_def)


lemma checkLimit_requests:
  "requests (stateOrInit (snd (checkLimit now c))) =
     (let kept = filter (\<lambda>ts. now - ts < windowMs) (requests (stateOrInit c))
      in if fst (checkLimit now c) then kept @ [now] else kept)"
  by (auto simp: checkLimit_def Let_def stateOrInit_simps)

lemma checkLimit_bytes:
  "bytes (stateOrInit (snd (checkLimit now c))) = bytes (stateOrInit c)"
  by (auto simp: checkLimit_def Let_def stateOrInit_simps)

lemma checkLimit_fields:
  "pubkey (snd (checkLimit now c)) = pubkey c"
  "namespace (snd (checkLimit now c)) = namespace c"
  "allowedMethods (snd (checkLimit now c)) = allowedMethods c"
  "limits (snd (checkLimit now c)) = limits c"
  by (auto simp: checkLimit_def Let_def)

lemma checkBudget_accept:
  "fst (checkBudget now c n) \<longleftrightarrow>
     sumBytes (filter (inWindow now) (bytes (stateOrInit c))) + n \<le> bps (limits c)"
  by (auto simp: checkBudget_def Let_def)

lemma checkBudget_requests:
  "requests (stateOrInit (snd (checkBudget now c n))) = requests (stateOrInit c)"
  by (auto simp: checkBudget_def Let_def stateOrInit_simps)

lemma checkBudget_bytes:
  "bytes (stateOrInit (snd (checkBudget now c n))) = filter (inWindow now) (bytes (stateOrInit c))"
  by (auto simp: checkBudget_def Let_def stateOrInit_simps)

lemma checkBudget_fields:
  "pubkey (snd (checkBudget now c n)) = pubkey c"
  "namespace (snd (checkBudget now c n)) = namespace c"
  "allowedMethods (snd (checkBudget now c n)) = allowedMethods c"
  "limits (snd (checkBudget now c n)) = limits c"
  by (auto simp: checkBudget_def Let_def)

lemma consumeBudget_requests:
  "requests (stateOrInit (consumeBudget tp tu c n)) = requests (stateOrInit c)"
  by (auto simp: consumeBudget_def getCurrentUsage_def Let_def stateOrInit_simps)

lemma consumeBudget_bytes:
  "bytes (stateOrInit (consumeBudget tp tu c n)) =
     filter (inWindow tu) (bytes (stateOrInit c) @ [\<lparr> br_timestamp = tp, br_bytes = n \<rparr>])"
  by (auto simp: consumeBudget_def getCurrentUsage_def Let_def stateOrInit_simps)


lemma completeRequest_connection:
  "snd (snd (completeRequest env clk request vr nm c router)) =
     consumeBudget (t_consume clk) (t_usage clk) c
       (stringifyResponse env (fst (dispatch (t_backend clk) vr c nm router)))"
  by (auto simp: completeRequest_def Let_def split: prod.splits option.splits)

lemma getNamespaceManager_cache:
  "idempotencyCache (snd (getNamespaceManager router c)) = idempotencyCache router"
  by (auto simp: getNamespaceManager_def Let_def split: option.splits)

lemma handleRequest_passed:
  assumes "passesChecks env clk request connection router"
  shows "\<exists>vr. baseRequestSchemaParse request = Some vr \<and>
     handleRequest env clk request connection router =
       completeRequest env clk request vr (fst (getNamespaceManager router connection))
         (snd (checkBudget (t_budget clk) (snd (checkLimit (t_rate clk) connection))
                 (stringifyRequest env request)))
         ((snd (getNamespaceManager router connection))\<lparr> idempotencyCache :=
             snd (cacheGet (t_cacheGet clk) (idempotencyCache router) (pubkey connection) (rq_id vr)) \<rparr>)"
proof -
  obtain nm router1 where g: "getNamespaceManager router connection = (nm, router1)"
    by (cases "getNamespaceManager router connection")
  have c: "idempotencyCache router1 = idempotencyCache router"
    using getNamespaceManager_cache[of router connection] g by simp
  from assms obtain vr where p: "baseRequestSchemaParse request = Some vr"
    by (auto simp: passesChecks_def split: option.splits)
  obtain cached cache1 where cg:
    "cacheGet (t_cacheGet clk) (idempotencyCache router) (pubkey connection) (rq_id vr) = (cached, cache1)"
    by (cases "cacheGet (t_cacheGet clk) (idempotencyCache router) (pubkey connection) (rq_id vr)")
  obtain ok1 c1 where cl: "checkLimit (t_rate clk) connection = (ok1, c1)"
    by (cases "checkLimit (t_rate clk) connection")
  obtain ok2 c2 where cb: "checkBudget (t_budget clk) c1 (stringifyRequest env request) = (ok2, c2)"
    by (cases "checkBudget (t_budget clk) c1 (stringifyRequest env request)")
  from assms p cg cl cb have f: "cached = None" "rq_method vr \<in> set (allowedMethods connection)" "ok1" "ok2"
    by (simp_all add: passesChecks_def)
  show ?thesis
    using p g c cg cl cb f by (simp add: handleRequest_def Let_def)
qed


lemma bufferFromBase64_Nil: "bufferFromBase64 [] = []"
  by (simp add: bufferFromBase64_def)

lemma isBase64_units:
  assumes "isBase64 str"
  shows "unitsOf (map char_of str) = str"
proof -
  define b where "b = toBase64 (bufferFromBase64 (map char_of str))"
  have "str = map of_char b"
    using assms by (simp add: isBase64_def unitsOf_def b_def)
  then show ?thesis
    by (simp add: unitsOf_def comp_def)
qed

lemma validateValue_iff:
  "validateValue v m \<longleftrightarrow> (v = [] \<or> int (length (bufferFromBase64 v)) \<le> m)"
  by (auto simp: validateValue_def Let_def)

lemma handleSet_INVALID_VALUE:
  assumes "setParamsParse (rq_params request) = Some (key, v, ttl)"
    and "validateKey key (maxKey (limits connection))"
  shows "map_option fst (rs_error (fst (handleSet now request connection nm router))) = Some INVALID_VALUE
     \<longleftrightarrow> \<not> validateValue v (maxVal (limits connection))"
  using assms
  by (auto simp: handleSet_def errorResponse_def okResponse_def split: option.splits prod.splits)


lemma guardedCommands_Nil: "guardedCommands nm ps []"
  by (simp add: guardedCommands_def)

lemma keyParamsParse_paramKeys: "keyParamsParse ps = Some k \<Longrightarrow> k \<in> set (paramKeys ps)"
  by (auto simp: keyParamsParse_def paramKeys_def split: option.splits json.splits)

lemma setParamsParse_paramKeys: "setParamsParse ps = Some (k, v, t) \<Longrightarrow> k \<in> set (paramKeys ps)"
  by (auto simp: setParamsParse_def paramKeys_def split: option.splits json.splits if_splits)

lemma expireParamsParse_paramKeys: "expireParamsParse ps = Some (k, t) \<Longrightarrow> k \<in> set (paramKeys ps)"
  by (auto simp: expireParamsParse_def paramKeys_def split: option.splits json.splits if_splits)

lemma stringArray_jsonStrings: "stringArray xs = Some ss \<Longrightarrow> jsonStrings xs = ss"
  by (induction xs arbitrary: ss rule: stringArray.induct) (auto split: option.splits)

lemma mgetParamsParse_paramKeys: "mgetParamsParse ps = Some ks \<Longrightarrow> set ks \<subseteq> set (paramKeys ps)"
  by (auto simp: mgetParamsParse_def paramKeys_def stringArray_jsonStrings
      split: option.splits json.splits if_splits)

lemma resolveKeys_Inr:
  "resolveKeys nm mk keys acc = Inr fks \<Longrightarrow>
     \<exists>new. fks = acc @ new \<and> (\<forall>fk \<in> set new. \<exists>k \<in> set keys. ensureNamespace nm k = Some fk)"
proof (induction keys arbitrary: acc)
  case Nil
  then show ?case by simp
next
  case (Cons key keys)
  from Cons.prems obtain fullKey where fk: "ensureNamespace nm key = Some fullKey"
    and rest: "resolveKeys nm mk keys (acc @ [fullKey]) = Inr fks"
    by (auto split: if_splits option.splits)
  from Cons.IH[OF rest] obtain new where
    n: "fks = (acc @ [fullKey]) @ new" "\<forall>fk \<in> set new. \<exists>k \<in> set keys. ensureNamespace nm k = Some fk"
    by blast
  have "fks = acc @ (fullKey # new)" using n(1) by simp
  moreover have "\<forall>fk \<in> set (fullKey # new). \<exists>k \<in> set (key # keys). ensureNamespace nm k = Some fk"
    using n(2) fk by auto
  ultimately show ?case by blast
qed

lemma handleGetInfo_commands:
  "rd_commands (snd (handleGetInfo vr c router)) = rd_commands (redis router) @ []"
  by (simp add: handleGetInfo_def)


lemma kvGet_commands:
  "kvGet now r k = (res, r') \<Longrightarrow> rd_commands r' = rd_commands r @ [GET k]"
  by (auto simp: kvGet_def redisGet_def issue_def Let_def split: option.splits RedisValue.splits if_splits)

lemma kvSet_commands:
  "kvSet now r k v ttl = (res, r') \<Longrightarrow> \<exists>ex. rd_commands r' = rd_commands r @ [SET k (bufferFromBase64 v) ex]"
  by (auto simp: kvSet_def redisSet_def issue_def Let_def split: option.splits if_splits)

lemma kvDel_commands:
  "kvDel now r k = (res, r') \<Longrightarrow> rd_commands r' = rd_commands r @ [DEL k]"
  by (auto simp: kvDel_def redisDel_def issue_def Let_def split: option.splits if_splits)

lemma kvExists_commands:
  "kvExists now r k = (res, r') \<Longrightarrow> rd_commands r' = rd_commands r @ [EXISTS k]"
  by (auto simp: kvExists_def redisExists_def issue_def Let_def split: option.splits if_splits)

lemma kvMget_commands:
  "kvMget now r ks = (res, r') \<Longrightarrow> rd_commands r' = rd_commands r @ [MGET ks]"
  by (auto simp: kvMget_def redisMget_def issue_def Let_def split: option.splits if_splits)

lemma kvExpire_commands:
  "kvExpire now r k t = (res, r') \<Longrightarrow> rd_commands r' = rd_commands r @ [EXPIRE k t]"
  by (auto simp: kvExpire_def redisExpire_def issue_def Let_def split: option.splits if_splits)

lemma kvTtl_commands:
  "kvTtl now r k = (res, r') \<Longrightarrow> rd_commands r' = rd_commands r @ [TTL k]"
  by (auto simp: kvTtl_def redisTtl_def issue_def Let_def split: option.splits if_splits)

lemma guardedCommands_single:
  "k \<in> set (paramKeys ps) \<Longrightarrow> ensureNamespace nm k = Some fk \<Longrightarrow> kvKeys cmd = [fk] \<Longrightarrow>
   \<not> isLpush cmd \<Longrightarrow> guardedCommands nm ps [cmd]"
  by (auto simp: guardedCommands_def)

lemma handleGet_commands:
  "\<exists>issued. rd_commands (snd (handleGet now vr c nm router)) = rd_commands (redis router) @ issued \<and>
     guardedCommands nm (rq_params vr) issued"
  by (auto simp: handleGet_def guardedCommands_Nil split: option.splits prod.splits
      dest!: kvGet_commands keyParamsParse_paramKeys intro!: guardedCommands_single[where cmd = "GET _"])

lemma handleSet_commands:
  "\<exists>issued. rd_commands (snd (handleSet now vr c nm router)) = rd_commands (redis router) @ issued \<and>
     guardedCommands nm (rq_params vr) issued"
  by (auto simp: handleSet_def guardedCommands_Nil split: option.splits prod.splits
      dest!: kvSet_commands setParamsParse_paramKeys intro!: guardedCommands_single[where cmd = "SET _ _ _"])

lemma handleDel_commands:
  "\<exists>issued. rd_commands (snd (handleDel now vr c nm router)) = rd_commands (redis router) @ issued \<and>
     guardedCommands nm (rq_params vr) issued"
  by (auto simp: handleDel_def guardedCommands_Nil split: option.splits prod.splits
      dest!: kvDel_commands keyParamsParse_paramKeys intro!: guardedCommands_single[where cmd = "DEL _"])

lemma handleExists_commands:
  "\<exists>issued. rd_commands (snd (handleExists now vr c nm router)) = rd_commands (redis router) @ issued \<and>
     guardedCommands nm (rq_params vr) issued"
  by (auto simp: handleExists_def guardedCommands_Nil split: option.splits prod.splits
      dest!: kvExists_commands keyParamsParse_paramKeys intro!: guardedCommands_single[where cmd = "EXISTS _"])

lemma handleExpire_commands:
  "\<exists>issued. rd_commands (snd (handleExpire now vr c nm router)) = rd_commands (redis router) @ issued \<and>
     guardedCommands nm (rq_params vr) issued"
  by (auto simp: handleExpire_def guardedCommands_Nil split: option.splits prod.splits
      dest!: kvExpire_commands expireParamsParse_paramKeys intro!: guardedCommands_single[where cmd = "EXPIRE _ _"])

lemma handleTtl_commands:
  "\<exists>issued. rd_commands (snd (handleTtl now vr c nm router)) = rd_commands (redis router) @ issued \<and>
     guardedCommands nm (rq_params vr) issued"
  by (auto simp: handleTtl_def guardedCommands_Nil split: option.splits prod.splits
      dest!: kvTtl_commands keyParamsParse_paramKeys intro!: guardedCommands_single[where cmd = "TTL _"])

lemma handleMget_commands:
  "\<exists>issued. rd_commands (snd (handleMget now vr c nm router)) = rd_commands (redis router) @ issued \<and>
     guardedCommands nm (rq_params vr) issued"
proof (cases "mgetParamsParse (rq_params vr)")
  case None
  then show ?thesis by (simp add: handleMget_def guardedCommands_Nil)
next
  case (Some keys)
  note sub = mgetParamsParse_paramKeys[OF Some]
  show ?thesis
  proof (cases "validateMgetCount (int (length keys)) (mgetMax (limits c))")
    case False
    then show ?thesis using Some by (simp add: handleMget_def guardedCommands_Nil)
  next
    case True
    show ?thesis
    proof (cases "resolveKeys nm (maxKey (limits c)) keys []")
      case (Inl e)
      then show ?thesis using Some True
        by (cases e) (simp add: handleMget_def guardedCommands_Nil)
    next
      case (Inr fullKeys)
      from resolveKeys_Inr[OF Inr] have g: "\<forall>fk \<in> set fullKeys. \<exists>k \<in> set keys. ensureNamespace nm k = Some fk"
        by simp
      obtain res r' where kv: "kvMget now (redis router) fullKeys = (res, r')"
        by (cases "kvMget now (redis router) fullKeys")
      have c: "rd_commands r' = rd_commands (redis router) @ [MGET fullKeys]"
        using kvMget_commands[OF kv] .
      have "guardedCommands nm (rq_params vr) [MGET fullKeys]"
        using g sub by (auto simp: guardedCommands_def)
      moreover have "snd (handleMget now vr c nm router) = r'"
        using Some True Inr kv by (cases res) (simp_all add: handleMget_def)
      ultimately show ?thesis using c by blast
    qed
  qed
qed

lemma dispatch_commands:
  "\<exists>issued. rd_commands (snd (dispatch now vr c nm router)) = rd_commands (redis router) @ issued \<and>
     guardedCommands nm (rq_params vr) issued"
  using handleGet_commands[of now vr c nm router] handleSet_commands[of now vr c nm router]
    handleDel_commands[of now vr c nm router] handleExists_commands[of now vr c nm router]
    handleMget_commands[of now vr c nm router] handleExpire_commands[of now vr c nm router]
    handleTtl_commands[of now vr c nm router]
  by (simp add: dispatch_def Let_def handleGetInfo_def guardedCommands_Nil)


lemma auditLog_commands:
  "\<exists>record rest. rd_commands (auditLog now key r entry) = rd_commands r @ LPUSH key record # rest \<and>
     (\<forall>cmd \<in> set rest. \<not> isLpush cmd \<and> kvKeys cmd = []) \<and>
     ae_method record = ae_method entry \<and> ae_status record = ae_status entry \<and>
     ae_errorCode record = ae_errorCode entry"
  by (auto simp: auditLog_def redisLpush_def redisLtrim_def issue_def Let_def
      split: option.splits prod.splits RedisValue.splits if_splits)

lemma completeRequest_response:
  "fst (completeRequest env clk request vr nm c router) =
     (if hashKey env (map_of (rq_params vr) ''key'') = None
      then Some (errorResponse (jprop request ''id'') INTERNAL ''Internal server error'')
      else Some (fst (dispatch (t_backend clk) vr c nm router)))"
  by (auto simp: completeRequest_def Let_def split: prod.splits option.splits)

lemma completeRequest_cache:
  "idempotencyCache (fst (snd (completeRequest env clk request vr nm c router))) =
     cacheSet (t_cacheSet clk) (idempotencyCache router) (pubkey c) (rq_id vr)
       (fst (dispatch (t_backend clk) vr c nm router))"
  by (auto simp: completeRequest_def Let_def split: prod.splits option.splits)

lemma completeRequest_managers:
  "namespaceManagers (fst (snd (completeRequest env clk request vr nm c router))) = namespaceManagers router"
  by (auto simp: completeRequest_def Let_def split: prod.splits option.splits)

lemma completeRequest_redis:
  "redis (fst (snd (completeRequest env clk request vr nm c router))) =
     (case hashKey env (map_of (rq_params vr) ''key'') of
        None \<Rightarrow> snd (dispatch (t_backend clk) vr c nm router)
      | Some kh \<Rightarrow> auditLog (t_audit clk) (auditKey env) (snd (dispatch (t_backend clk) vr c nm router))
          (auditEntryFor clk vr (consumeBudget (t_consume clk) (t_usage clk) c
               (stringifyResponse env (fst (dispatch (t_backend clk) vr c nm router))))
             (fst (dispatch (t_backend clk) vr c nm router)) kh))"
  by (auto simp: completeRequest_def Let_def split: prod.splits option.splits)

lemma getNamespaceManager_redis:
  "redis (snd (getNamespaceManager router c)) = redis router"
  by (auto simp: getNamespaceManager_def Let_def split: option.splits)

lemma getNamespaceManager_consistent:
  "managersConsistent router \<Longrightarrow>
     fst (getNamespaceManager router c) = newNamespaceManager (namespace c) \<and>
     managersConsistent (snd (getNamespaceManager router c))"
  by (auto simp: getNamespaceManager_def managersConsistent_def Let_def split: option.splits)

text \<open>Without the checks passed, nothing reaches the backend.\<close>

lemma handleRequest_not_passed:
  assumes "\<not> passesChecks env clk request connection router"
  shows "redis (fst (snd (handleRequest env clk request connection router))) = redis router"
proof -
  obtain nm router1 where g: "getNamespaceManager router connection = (nm, router1)"
    by (cases "getNamespaceManager router connection")
  have c: "idempotencyCache router1 = idempotencyCache router"
    using getNamespaceManager_cache[of router connection] g by simp
  have r: "redis router1 = redis router"
    using getNamespaceManager_redis[of router connection] g by simp
  show ?thesis
  proof (cases "baseRequestSchemaParse request")
    case None
    then show ?thesis using g r by (simp add: handleRequest_def)
  next
    case (Some vr)
    obtain cached cache1 where cg:
      "cacheGet (t_cacheGet clk) (idempotencyCache router) (pubkey connection) (rq_id vr) = (cached, cache1)"
      by (cases "cacheGet (t_cacheGet clk) (idempotencyCache router) (pubkey connection) (rq_id vr)")
    obtain ok1 c1 where cl: "checkLimit (t_rate clk) connection = (ok1, c1)"
      by (cases "checkLimit (t_rate clk) connection")
    obtain ok2 c2 where cb: "checkBudget (t_budget clk) c1 (stringifyRequest env request) = (ok2, c2)"
      by (cases "checkBudget (t_budget clk) c1 (stringifyRequest env request)")
    from assms Some cg cl cb have
      "cached \<noteq> None \<or> rq_method vr \<notin> set (allowedMethods connection) \<or> \<not> ok1 \<or> \<not> ok2"
      by (auto simp: passesChecks_def)
    then show ?thesis
      using Some g c r cg cl cb by (cases cached; cases ok1; cases ok2) (auto simp: handleRequest_def Let_def)
  qed
qed

lemma handleRequest_commands:
  assumes "managersConsistent router"
  shows "\<exists>issued. rd_commands (redis (fst (snd (handleRequest env clk request connection router)))) =
            rd_commands (redis router) @ issued \<and>
          (\<forall>cmd \<in> set issued. \<forall>fullKey \<in> set (kvKeys cmd).
             \<exists>key \<in> set (requestKeys request).
               ensureNamespace (newNamespaceManager (namespace connection)) key = Some fullKey)"
proof (cases "passesChecks env clk request connection router")
  case False
  from handleRequest_not_passed[OF False] show ?thesis by simp
next
  case True
  from handleRequest_passed[OF True] obtain vr where
    p: "baseRequestSchemaParse request = Some vr" and
    h: "handleRequest env clk request connection router =
       completeRequest env clk request vr (fst (getNamespaceManager router connection))
         (snd (checkBudget (t_budget clk) (snd (checkLimit (t_rate clk) connection))
                 (stringifyRequest env request)))
         ((snd (getNamespaceManager router connection))\<lparr> idempotencyCache :=
             snd (cacheGet (t_cacheGet clk) (idempotencyCache router) (pubkey connection) (rq_id vr)) \<rparr>)"
    (is "_ = completeRequest _ _ _ _ ?nm ?c ?router")
    by blast
  have nm: "?nm = newNamespaceManager (namespace connection)"
    using getNamespaceManager_consistent[OF assms] by simp
  have rk: "requestKeys request = paramKeys (rq_params vr)"
    using p by (auto simp: baseRequestSchemaParse_def requestKeys_def split: option.splits json.splits)
  have rr: "redis ?router = redis router" by (simp add: getNamespaceManager_redis)
  from dispatch_commands[of "t_backend clk" vr ?c ?nm ?router] obtain issued where
    d: "rd_commands (snd (dispatch (t_backend clk) vr ?c ?nm ?router)) = rd_commands (redis router) @ issued"
    and gc: "guardedCommands ?nm (rq_params vr) issued"
    using rr by auto
  have keys: "\<forall>cmd \<in> set issued. \<forall>fullKey \<in> set (kvKeys cmd).
             \<exists>key \<in> set (requestKeys request).
               ensureNamespace (newNamespaceManager (namespace connection)) key = Some fullKey"
    using gc nm rk by (simp add: guardedCommands_def)
  show ?thesis
  proof (cases "hashKey env (map_of (rq_params vr) ''key'')")
    case None
    then have "redis (fst (snd (handleRequest env clk request connection router))) =
        snd (dispatch (t_backend clk) vr ?c ?nm ?router)"
      by (simp add: h completeRequest_redis)
    then show ?thesis using d keys by simp
  next
    case (Some kh)
    let ?entry = "auditEntryFor clk vr (consumeBudget (t_consume clk) (t_usage clk) ?c
               (stringifyResponse env (fst (dispatch (t_backend clk) vr ?c ?nm ?router))))
             (fst (dispatch (t_backend clk) vr ?c ?nm ?router)) kh"
    have e: "redis (fst (snd (handleRequest env clk request connection router))) =
        auditLog (t_audit clk) (auditKey env) (snd (dispatch (t_backend clk) vr ?c ?nm ?router)) ?entry"
      using Some by (simp add: h completeRequest_redis)
    from auditLog_commands[of "t_audit clk" "auditKey env" "snd (dispatch (t_backend clk) vr ?c ?nm ?router)" ?entry]
    obtain pushed rest where
      a: "rd_commands (auditLog (t_audit clk) (auditKey env) (snd (dispatch (t_backend clk) vr ?c ?nm ?router)) ?entry)
          = rd_commands (snd (dispatch (t_backend clk) vr ?c ?nm ?router)) @ LPUSH (auditKey env) pushed # rest"
      and b: "\<forall>cmd \<in> set rest. \<not> isLpush cmd \<and> kvKeys cmd = []"
      by blast
    have "rd_commands (redis (fst (snd (handleRequest env clk request connection router)))) =
        rd_commands (redis router) @ (issued @ LPUSH (auditKey env) pushed # rest)"
      using e a d by simp
    moreover have "\<forall>cmd \<in> set (issued @ LPUSH (auditKey env) pushed # rest). \<forall>fullKey \<in> set (kvKeys cmd).
             \<exists>key \<in> set (requestKeys request).
               ensureNamespace (newNamespaceManager (namespace connection)) key = Some fullKey"
      using keys b by auto
    ultimately show ?thesis by blast
  qed
qed

lemma ensureNamespace_Some:
  "ensureNamespace nm key = Some fullKey \<Longrightarrow>
     startsWith fullKey (nm_namespace nm) \<and>
     fullKey = (if startsWith key (nm_namespace nm) then key else nm_namespace nm @ key)"
  by (auto simp: ensureNamespace_def startsWith_prefix split: if_splits)


lemma newNamespaceManager_colon:
  "endsWith ns '':'' \<Longrightarrow> nm_namespace (newNamespaceManager ns) = ns"
  by (simp add: newNamespaceManager_def)


lemma cacheSet_same: "cacheSet now cache pk i resp (getCacheKey pk i) = Some \<lparr> cr_response = resp, cr_timestamp = now \<rparr>"
  by (simp add: cacheSet_def)


lemma cacheGet_hit:
  "cache (getCacheKey pk i) = Some cached \<Longrightarrow> now - cr_timestamp cached \<le> windowMs \<Longrightarrow>
     cacheGet now cache pk i = (Some (cr_response cached), cache)"
  by (simp add: cacheGet_def Let_def)


lemma cacheGet_other:
  "key \<noteq> getCacheKey pk i \<Longrightarrow> snd (cacheGet now cache pk i) key = cache key"
  by (auto simp: cacheGet_def Let_def split: option.splits)

lemma handleRequest_hit:
  assumes "baseRequestSchemaParse request = Some vr"
    and "idempotencyCache router (getCacheKey (pubkey connection) (rq_id vr)) = Some cached"
    and "t_cacheGet clk - cr_timestamp cached \<le> windowMs"
  shows "fst (handleRequest env clk request connection router) = Some (cr_response cached)"
proof -
  obtain nm router1 where g: "getNamespaceManager router connection = (nm, router1)"
    by (cases "getNamespaceManager router connection")
  have c: "idempotencyCache router1 = idempotencyCache router"
    using getNamespaceManager_cache[of router connection] g by simp
  have "cacheGet (t_cacheGet clk) (idempotencyCache router) (pubkey connection) (rq_id vr) =
      (Some (cr_response cached), idempotencyCache router)"
    using assms(2,3)
    by (rule cacheGet_hit[where cache = "idempotencyCache router" and pk = "pubkey connection"
          and i = "rq_id vr" and now = "t_cacheGet clk"])
  then show ?thesis
    using assms(1) g c by (simp add: handleRequest_def)
qed

lemma passed_state:
  assumes "passesChecks env clk request connection router"
    and "baseRequestSchemaParse request = Some vr"
    and "handleRequest env clk request connection router = (response, router', connection')"
  shows "\<exists>response0.
      idempotencyCache router' (getCacheKey (pubkey connection) (rq_id vr)) =
        Some \<lparr> cr_response = response0, cr_timestamp = t_cacheSet clk \<rparr> \<and>
      (hashKey env (map_of (rq_params vr) ''key'') \<noteq> None \<longrightarrow> response = Some response0) \<and>
      bytes (stateOrInit connection') =
        filter (inWindow (t_usage clk))
          (filter (inWindow (t_budget clk)) (bytes (stateOrInit connection)) @
           [\<lparr> br_timestamp = t_consume clk, br_bytes = stringifyResponse env response0 \<rparr>])"
proof -
  from handleRequest_passed[OF assms(1)] assms(2) have
    h: "handleRequest env clk request connection router =
       completeRequest env clk request vr (fst (getNamespaceManager router connection))
         (snd (checkBudget (t_budget clk) (snd (checkLimit (t_rate clk) connection))
                 (stringifyRequest env request)))
         ((snd (getNamespaceManager router connection))\<lparr> idempotencyCache :=
             snd (cacheGet (t_cacheGet clk) (idempotencyCache router) (pubkey connection) (rq_id vr)) \<rparr>)"
    (is "_ = completeRequest _ _ _ _ ?nm ?c ?router")
    by auto
  let ?r0 = "fst (dispatch (t_backend clk) vr ?c ?nm ?router)"
  have parts: "response = fst (handleRequest env clk request connection router)"
    "router' = fst (snd (handleRequest env clk request connection router))"
    "connection' = snd (snd (handleRequest env clk request connection router))"
    using assms(3) by simp_all
  have pk: "pubkey ?c = pubkey connection"
    by (simp add: checkBudget_fields checkLimit_fields)
  have 1: "idempotencyCache router' (getCacheKey (pubkey connection) (rq_id vr)) =
        Some \<lparr> cr_response = ?r0, cr_timestamp = t_cacheSet clk \<rparr>"
    unfolding parts h completeRequest_cache pk by (rule cacheSet_same)
  have 2: "hashKey env (map_of (rq_params vr) ''key'') \<noteq> None \<longrightarrow> response = Some ?r0"
    unfolding parts h completeRequest_response by simp
  have 3: "bytes (stateOrInit connection') =
        filter (inWindow (t_usage clk))
          (filter (inWindow (t_budget clk)) (bytes (stateOrInit connection)) @
           [\<lparr> br_timestamp = t_consume clk, br_bytes = stringifyResponse env ?r0 \<rparr>])"
    unfolding parts h completeRequest_connection consumeBudget_bytes checkBudget_bytes checkLimit_bytes
    by (rule refl)
  from 1 2 3 show ?thesis by blast
qed


lemma demo_parse: "baseRequestSchemaParse (demoRequest i m ps) = Some \<lparr> rq_method = m, rq_params = ps, rq_id = i \<rparr>"
  by (simp add: baseRequestSchemaParse_def demoRequest_def)



















lemma newRouter_consistent: "managersConsistent newRouter"
  by (simp add: managersConsistent_def newRouter_def)

lemma handleRequest_managers:
  "namespaceManagers (fst (snd (handleRequest env clk request connection router))) =
     namespaceManagers (snd (getNamespaceManager router connection))"
proof (cases "passesChecks env clk request connection router")
  case True
  from handleRequest_passed[OF True] show ?thesis
    by (auto simp: completeRequest_managers)
next
  case False
  obtain nm router1 where g: "getNamespaceManager router connection = (nm, router1)"
    by (cases "getNamespaceManager router connection")
  show ?thesis
  proof (cases "baseRequestSchemaParse request")
    case None
    then show ?thesis using g by (simp add: handleRequest_def)
  next
    case (Some vr)
    obtain cached cache1 where cg:
      "cacheGet (t_cacheGet clk) (idempotencyCache router1) (pubkey connection) (rq_id vr) = (cached, cache1)"
      by (cases "cacheGet (t_cacheGet clk) (idempotencyCache router1) (pubkey connection) (rq_id vr)")
    obtain ok1 c1 where cl: "checkLimit (t_rate clk) connection = (ok1, c1)"
      by (cases "checkLimit (t_rate clk) connection")
    obtain ok2 c2 where cb: "checkBudget (t_budget clk) c1 (stringifyRequest env request) = (ok2, c2)"
      by (cases "checkBudget (t_budget clk) c1 (stringifyRequest env request)")
    show ?thesis
      using Some g cg cl cb
      by (cases cached; cases ok1; cases ok2)
         (auto simp: handleRequest_def Let_def completeRequest_managers)
  qed
qed

text \<open>The router keeps its namespace managers consistent.\<close>

lemma handleRequest_consistent:
  "managersConsistent router \<Longrightarrow>
   managersConsistent (fst (snd (handleRequest env clk request connection router)))"
  using getNamespaceManager_consistent[of router connection]
  by (simp add: managersConsistent_def handleRequest_managers)

text \<open>The timer's sweep keeps every entry that a lookup would still serve.\<close>

lemma cleanup_keeps:
  "cache key = Some cached \<Longrightarrow> now - cr_timestamp cached \<le> windowMs \<Longrightarrow>
   cleanup now cache key = Some cached"
  by (simp add: cleanup_def)

section \<open>Claims\<close>

text \<open>
  Claim C1: every key that a request of a connection passes to the backend store (with get,
  set, del, exists, mget, expire or ttl) begins with the connection's namespace, which ends
  in a colon; it is the key parameter itself when that already starts with the namespace,
  and the namespace followed by the key parameter otherwise.  The commands issued while a
  request is handled are those appended to the command history.
\<close>

theorem C1_backend_keys:
  assumes "endsWith (namespace connection) '':''"
    and "managersConsistent router"
    and "handleRequest env clk request connection router = (response, router', connection')"
  shows "\<exists>issued. rd_commands (redis router') = rd_commands (redis router) @ issued \<and>
          (\<forall>cmd \<in> set issued. \<forall>fullKey \<in> set (kvKeys cmd).
             startsWith fullKey (namespace connection) \<and>
             (\<exists>key \<in> set (requestKeys request).
                fullKey = (if startsWith key (namespace connection) then key
                           else namespace connection @ key)))"
proof -
  from handleRequest_commands[OF assms(2), of env clk request connection] obtain issued where
    i: "rd_commands (redis (fst (snd (handleRequest env clk request connection router)))) =
            rd_commands (redis router) @ issued"
    and k: "\<forall>cmd \<in> set issued. \<forall>fullKey \<in> set (kvKeys cmd).
             \<exists>key \<in> set (requestKeys request).
               ensureNamespace (newNamespaceManager (namespace connection)) key = Some fullKey"
    by blast
  have "\<forall>cmd \<in> set issued. \<forall>fullKey \<in> set (kvKeys cmd).
             startsWith fullKey (namespace connection) \<and>
             (\<exists>key \<in> set (requestKeys request).
                fullKey = (if startsWith key (namespace connection) then key
                           else namespace connection @ key))"
  proof (intro ballI)
    fix cmd fullKey assume "cmd \<in> set issued" "fullKey \<in> set (kvKeys cmd)"
    with k obtain key where key: "key \<in> set (requestKeys request)"
      "ensureNamespace (newNamespaceManager (namespace connection)) key = Some fullKey"
      by blast
    have "startsWith fullKey (namespace connection) \<and>
      fullKey = (if startsWith key (namespace connection) then key else namespace connection @ key)"
      using ensureNamespace_Some[OF key(2)] unfolding newNamespaceManager_colon[OF assms(1)] .
    with key(1) show "startsWith fullKey (namespace connection) \<and>
             (\<exists>key \<in> set (requestKeys request).
                fullKey = (if startsWith key (namespace connection) then key
                           else namespace connection @ key))"
      by blast
  qed
  moreover have "rd_commands (redis router') = rd_commands (redis router) @ issued"
    using i assms(3) by simp
  ultimately show ?thesis by blast
qed

theorem C1_backend_keys_witness:
  "endsWith (namespace demoConnection) '':'' \<and> managersConsistent newRouter \<and>
   hd (rd_commands (redis (fst (snd (handleRequest demoEnv (clockAt 0) mgetRequest
         demoConnection newRouter))))) = MGET [''appA:x'', ''appA:y''] \<and>
   (\<exists>issued.
      rd_commands (redis (fst (snd (handleRequest demoEnv (clockAt 0) mgetRequest
         demoConnection newRouter)))) = rd_commands (redis newRouter) @ issued \<and>
      (\<forall>cmd \<in> set issued. \<forall>fullKey \<in> set (kvKeys cmd).
         startsWith fullKey (namespace demoConnection) \<and>
         (\<exists>key \<in> set (requestKeys mgetRequest).
            fullKey = (if startsWith key (namespace demoConnection) then key
                       else namespace demoConnection @ key))))"
proof -
  have h1: "endsWith (namespace demoConnection) '':''"
    by (simp add: demoConnection_def endsWith_def)
  have h2: "managersConsistent newRouter"
    by (simp add: managersConsistent_def newRouter_def)
  have h3: "handleRequest demoEnv (clockAt 0) mgetRequest demoConnection newRouter =
      (fst (handleRequest demoEnv (clockAt 0) mgetRequest demoConnection newRouter),
       fst (snd (handleRequest demoEnv (clockAt 0) mgetRequest demoConnection newRouter)),
       snd (snd (handleRequest demoEnv (clockAt 0) mgetRequest demoConnection newRouter)))"
    by simp
  have h4: "hd (rd_commands (redis (fst (snd (handleRequest demoEnv (clockAt 0) mgetRequest
         demoConnection newRouter))))) = MGET [''appA:x'', ''appA:y'']"
    by code_simp
  show ?thesis using h1 h2 h4 C1_backend_keys [OF h1 h2 h3] by blast
qed

text \<open>
  Claim C2, as stated: for every key \<open>k\<close> and namespace \<open>N\<close> ending in a colon the guard is
  the five-step algorithm, whose fourth step rejects \<open>k\<close> when \<open>k\<close> contains a colon at a
  position greater than 0 whose prefix up to and including that colon differs from \<open>N\<close>.
  The code looks at the first colon only (\<^verbatim>\<open>indexOf\<close>) and requires \<^emph>\<open>that\<close> one to be at a
  position greater than 0: the key \<^verbatim>\<open>:a:b\<close> has a colon at position 2 with prefix \<^verbatim>\<open>:a:\<close>,
  which the algorithm as stated rejects, and the code returns \<^verbatim>\<open>app::a:b\<close>.
\<close>

theorem C2_five_step_counterexample:
  "ensureNamespace (newNamespaceManager ''app:'') '':a:b'' \<noteq>
   namespaceGuard_claimed ''app:'' '':a:b''"
  by (simp add: ensureNamespace_leading_colon_example namespaceGuard_claimed_leading_colon_example)

text \<open>
  Claim C2, amended: for every key \<open>k\<close> and namespace \<open>N\<close> ending in a colon, the guard
  rejects the empty key, rejects a key with a forbidden pattern, returns a key that starts
  with \<open>N\<close> unchanged, rejects a key whose \<^emph>\<open>first\<close> colon is at a position greater than 0
  (with a prefix up to that colon other than \<open>N\<close>), and otherwise returns \<open>N\<close> followed by
  the key.
\<close>

theorem C2_five_step_amended:
  "endsWith N '':'' \<Longrightarrow>
   ensureNamespace (newNamespaceManager N) k = namespaceGuard_amended N k"
  by (rule guard_eq)

theorem C2_five_step_amended_witness:
  "endsWith ''appA:'' '':'' \<and>
   namespaceGuard_amended ''appA:'' ''user'' = Some ''appA:user'' \<and>
   ensureNamespace (newNamespaceManager ''appA:'') ''user'' =
     namespaceGuard_amended ''appA:'' ''user''"
proof -
  have h: "endsWith ''appA:'' '':''" by (simp add: endsWith_def)
  show ?thesis
    using h C2_five_step_amended [OF h, of "''user''"] ensureNamespace_bare_example by simp
qed

text \<open>
  Claim C3, as stated: once any response has been produced for a request id of a client,
  every later request with that id within the 60-second window gets the identical response.
  The responses of the early rejections are not cached.  In \<^const>\<open>replayRun\<close> the request
  \<^verbatim>\<open>r\<close> is answered \<^verbatim>\<open>RATE_LIMITED\<close> at 1 s and, sent again 59 s later, is answered with
  the result of \<^verbatim>\<open>get_info\<close>.
\<close>

theorem C3_replay_counterexample:
  "fst replayRun ! 1 =
     Some (errorResponse (Some (JStr ''r'')) RATE_LIMITED ''Rate limit exceeded'') \<and>
   fst replayRun ! 2 =
     Some (okResponse (Some (JStr ''r''))
       (RInfo [''get_info'', ''get'', ''set'', ''del'', ''exists'', ''mget'', ''expire'', ''ttl'']
          ''appA:'' (demoLimits\<lparr> mps := 1 \<rparr>) True True)) \<and>
   fst replayRun ! 1 \<noteq> fst replayRun ! 2"
  by code_simp

text \<open>
  Claim C3, amended: once a request has passed the checks (no cached response, method
  allowed, rate and byte budget accepted) and has been answered, its audit record having
  been built without error, every later request of the same client with the same id whose
  cache lookup happens at most 60 000 ms after the insert gets the identical response, as
  long as the cache entry is still the one inserted.
\<close>

theorem C3_amended:
  assumes "passesChecks env clk1 request1 connection router"
    and "baseRequestSchemaParse request1 = Some vr1"
    and "hashKey env (map_of (rq_params vr1) ''key'') \<noteq> None"
    and "handleRequest env clk1 request1 connection router = (response1, router1, connection1)"
    and "baseRequestSchemaParse request2 = Some vr2"
    and "rq_id vr2 = rq_id vr1"
    and "pubkey connection2 = pubkey connection"
    and "idempotencyCache router2 (getCacheKey (pubkey connection) (rq_id vr1)) =
         idempotencyCache router1 (getCacheKey (pubkey connection) (rq_id vr1))"
    and "t_cacheGet clk2 - t_cacheSet clk1 \<le> windowMs"
  shows "response1 \<noteq> None \<and> fst (handleRequest env clk2 request2 connection2 router2) = response1"
proof -
  from passed_state[OF assms(1,2,4)] assms(3) obtain response0 where
    c: "idempotencyCache router1 (getCacheKey (pubkey connection) (rq_id vr1)) =
        Some \<lparr> cr_response = response0, cr_timestamp = t_cacheSet clk1 \<rparr>"
    and r: "response1 = Some response0"
    by blast
  have "idempotencyCache router2 (getCacheKey (pubkey connection2) (rq_id vr2)) =
        Some \<lparr> cr_response = response0, cr_timestamp = t_cacheSet clk1 \<rparr>"
    using c assms(6,7,8) by simp
  from handleRequest_hit[OF assms(5) this] assms(9)
  have "fst (handleRequest env clk2 request2 connection2 router2) = Some response0" by simp
  with r show ?thesis by simp
qed

theorem C3_amended_witness:
  "passesChecks demoEnv (clockAt 0) setRequest demoConnection newRouter \<and>
   t_cacheGet (clockAt 60000) - t_cacheSet (clockAt 0) \<le> windowMs \<and>
   fst (handleRequest demoEnv (clockAt 0) setRequest demoConnection newRouter) \<noteq> None \<and>
   fst (handleRequest demoEnv (clockAt 60000) setRequest
          (snd (snd (handleRequest demoEnv (clockAt 0) setRequest demoConnection newRouter)))
          (fst (snd (handleRequest demoEnv (clockAt 0) setRequest demoConnection newRouter)))) =
   fst (handleRequest demoEnv (clockAt 0) setRequest demoConnection newRouter)"
proof -
  let ?first = "handleRequest demoEnv (clockAt 0) setRequest demoConnection newRouter"
  let ?vr = "\<lparr> rq_method = ''set'', rq_params = [(''key'', JStr ''a''), (''value'', JStr ''eA=='')],
               rq_id = ''r-7'' \<rparr>"
  have h1: "passesChecks demoEnv (clockAt 0) setRequest demoConnection newRouter"
    by code_simp
  have h2: "baseRequestSchemaParse setRequest = Some ?vr"
    by (simp add: setRequest_def demo_parse)
  have h3: "hashKey demoEnv (map_of (rq_params ?vr) ''key'') \<noteq> None"
    by (simp add: hashKey_def)
  have h4: "?first = (fst ?first, fst (snd ?first), snd (snd ?first))"
    by simp
  have h5: "rq_id ?vr = rq_id ?vr"
    by simp
  have h6: "pubkey (snd (snd ?first)) = pubkey demoConnection"
    by code_simp
  have h7: "idempotencyCache (fst (snd ?first)) (getCacheKey (pubkey demoConnection) (rq_id ?vr)) =
      idempotencyCache (fst (snd ?first)) (getCacheKey (pubkey demoConnection) (rq_id ?vr))"
    by simp
  have h8: "t_cacheGet (clockAt 60000) - t_cacheSet (clockAt 0) \<le> windowMs"
    by (simp add: clockAt_def windowMs_def)
  show ?thesis
    using h1 h8 C3_amended [OF h1 h2 h3 h4 h2 h5 h6 h7 h8] by simp
qed

text \<open>
  Claim C4, as stated: the encoded sizes of the accepted requests and of their responses,
  summed over the window, never exceed \<^verbatim>\<open>bps\<close>, and both are recorded in the window.  With
  a budget of 100 bytes, a request of 50 bytes is accepted and its response of 200 bytes is
  recorded: the window then holds that single record, more than the budget, and no record of
  the request.
\<close>

theorem C4_budget_counterexample:
  "passesChecks demoEnv (clockAt 0) infoRequest smallBudgetConnection newRouter \<and>
   stringifyRequest demoEnv infoRequest = 50 \<and>
   bytes (stateOrInit (snd (snd (handleRequest demoEnv (clockAt 0) infoRequest
            smallBudgetConnection newRouter)))) = [\<lparr> br_timestamp = 0, br_bytes = 200 \<rparr>] \<and>
   sumBytes (bytes (stateOrInit (snd (snd (handleRequest demoEnv (clockAt 0) infoRequest
            smallBudgetConnection newRouter))))) > bps (limits smallBudgetConnection)"
  by code_simp

text \<open>
  Claim C4, amended: the byte-budget check accepts a request of size \<open>n\<close> exactly when the
  bytes recorded in the current window plus \<open>n\<close> are at most \<^verbatim>\<open>bps\<close>; and when a request has
  passed the checks and is answered by its handler (its audit record being built without
  error), the encoded size of its response is recorded in the window (the stamp of the
  record being within the window at the purge that follows).
\<close>

theorem C4_amended:
  assumes "baseRequestSchemaParse request = Some vr"
    and "handleRequest env clk request connection router = (response, router', connection')"
  shows "(fst (checkBudget now connection n) \<longleftrightarrow>
            sumBytes (filter (inWindow now) (bytes (stateOrInit connection))) + n
              \<le> bps (limits connection)) \<and>
         (passesChecks env clk request connection router \<longrightarrow>
          hashKey env (map_of (rq_params vr) ''key'') \<noteq> None \<longrightarrow>
          t_usage clk - t_consume clk < windowMs \<longrightarrow>
          (\<exists>response0. response = Some response0 \<and>
             \<lparr> br_timestamp = t_consume clk, br_bytes = stringifyResponse env response0 \<rparr>
               \<in> set (bytes (stateOrInit connection'))))"
proof (intro conjI impI)
  show "fst (checkBudget now connection n) \<longleftrightarrow>
            sumBytes (filter (inWindow now) (bytes (stateOrInit connection))) + n
              \<le> bps (limits connection)"
    by (rule checkBudget_accept)
next
  assume p: "passesChecks env clk request connection router"
    and k: "hashKey env (map_of (rq_params vr) ''key'') \<noteq> None"
    and t: "t_usage clk - t_consume clk < windowMs"
  from passed_state[OF p assms(1,2)] k obtain response0 where
    r: "response = Some response0"
    and b: "bytes (stateOrInit connection') =
        filter (inWindow (t_usage clk))
          (filter (inWindow (t_budget clk)) (bytes (stateOrInit connection)) @
           [\<lparr> br_timestamp = t_consume clk, br_bytes = stringifyResponse env response0 \<rparr>])"
    by blast
  have "\<lparr> br_timestamp = t_consume clk, br_bytes = stringifyResponse env response0 \<rparr>
               \<in> set (bytes (stateOrInit connection'))"
    unfolding b using t by (simp add: inWindow_def)
  with r show "\<exists>response0. response = Some response0 \<and>
             \<lparr> br_timestamp = t_consume clk, br_bytes = stringifyResponse env response0 \<rparr>
               \<in> set (bytes (stateOrInit connection'))"
    by blast
qed

theorem C4_amended_witness:
  "passesChecks demoEnv (clockAt 0) infoRequest demoConnection newRouter \<and>
   t_usage (clockAt 0) - t_consume (clockAt 0) < windowMs \<and>
   (fst (checkBudget 0 demoConnection 50) \<longleftrightarrow>
      sumBytes (filter (inWindow 0) (bytes (stateOrInit demoConnection))) + 50
        \<le> bps (limits demoConnection)) \<and>
   (\<exists>response0.
      fst (handleRequest demoEnv (clockAt 0) infoRequest demoConnection newRouter) = Some response0 \<and>
      \<lparr> br_timestamp = t_consume (clockAt 0), br_bytes = stringifyResponse demoEnv response0 \<rparr>
        \<in> set (bytes (stateOrInit (snd (snd (handleRequest demoEnv (clockAt 0) infoRequest
                    demoConnection newRouter))))))"
proof -
  let ?first = "handleRequest demoEnv (clockAt 0) infoRequest demoConnection newRouter"
  let ?vr = "\<lparr> rq_method = ''get_info'', rq_params = [], rq_id = ''r-1'' \<rparr>"
  have h1: "baseRequestSchemaParse infoRequest = Some ?vr"
    by (simp add: infoRequest_def demo_parse)
  have h2: "?first = (fst ?first, fst (snd ?first), snd (snd ?first))"
    by simp
  have h3: "passesChecks demoEnv (clockAt 0) infoRequest demoConnection newRouter"
    by code_simp
  have h4: "hashKey demoEnv (map_of (rq_params ?vr) ''key'') \<noteq> None"
    by (simp add: hashKey_def)
  have h5: "t_usage (clockAt 0) - t_consume (clockAt 0) < windowMs"
    by (simp add: clockAt_def windowMs_def)
  show ?thesis
    using h3 h4 h5 C4_amended [OF h1 h2, of 0 50] by blast
qed

text \<open>
  Claim C5, as stated: every request that was decrypted and parsed causes exactly one audit
  record, also when it is rejected because its method is not allowed.  The audit record is
  written after the method handler only: a \<^verbatim>\<open>set\<close> of a connection allowed to read only is
  answered \<^verbatim>\<open>RESTRICTED\<close> and no command at all reaches the backend.
\<close>

theorem C5_audit_counterexample:
  "baseRequestSchemaParse setRequest \<noteq> None \<and>
   fst (handleRequest demoEnv (clockAt 0) setRequest readOnlyConnection newRouter) =
     Some (errorResponse (Some (JStr ''r-7'')) RESTRICTED ''Method set not allowed'') \<and>
   filter isLpush (rd_commands (redis (fst (snd (handleRequest demoEnv (clockAt 0) setRequest
       readOnlyConnection newRouter))))) = []"
  by code_simp

text \<open>
  Claim C5, amended: a parsed request causes exactly one audit push when it passes the
  checks (no cached response, method allowed, rate and byte budget accepted) and its audit
  record can be built, whatever the method handler answers; a request answered from the
  cache or rejected by one of the checks causes none.
\<close>

theorem C5_amended:
  assumes "baseRequestSchemaParse request = Some vr"
    and "handleRequest env clk request connection router = (response, router', connection')"
  shows "\<exists>issued. rd_commands (redis router') = rd_commands (redis router) @ issued \<and>
           length (filter isLpush issued) =
             (if passesChecks env clk request connection router \<and>
                 hashKey env (map_of (rq_params vr) ''key'') \<noteq> None then 1 else 0)"
proof (cases "passesChecks env clk request connection router")
  case False
  from handleRequest_not_passed[OF False] assms(2) have "redis router' = redis router" by simp
  then show ?thesis using False by simp
next
  case True
  from handleRequest_passed[OF True] assms(1) have
    h: "handleRequest env clk request connection router =
       completeRequest env clk request vr (fst (getNamespaceManager router connection))
         (snd (checkBudget (t_budget clk) (snd (checkLimit (t_rate clk) connection))
                 (stringifyRequest env request)))
         ((snd (getNamespaceManager router connection))\<lparr> idempotencyCache :=
             snd (cacheGet (t_cacheGet clk) (idempotencyCache router) (pubkey connection) (rq_id vr)) \<rparr>)"
    (is "_ = completeRequest _ _ _ _ ?nm ?c ?router")
    by auto
  have rr: "redis ?router = redis router" by (simp add: getNamespaceManager_redis)
  from dispatch_commands[of "t_backend clk" vr ?c ?nm ?router] obtain issued where
    d: "rd_commands (snd (dispatch (t_backend clk) vr ?c ?nm ?router)) = rd_commands (redis router) @ issued"
    and gc: "guardedCommands ?nm (rq_params vr) issued"
    using rr by auto
  have nl: "filter isLpush issued = []"
    using gc by (auto simp: guardedCommands_def filter_empty_conv)
  have "router' = fst (snd (handleRequest env clk request connection router))"
    using assms(2) by simp
  then have r': "redis router' = redis (fst (snd (completeRequest env clk request vr ?nm ?c ?router)))"
    by (simp only: h)
  show ?thesis
  proof (cases "hashKey env (map_of (rq_params vr) ''key'')")
    case None
    then have "redis router' = snd (dispatch (t_backend clk) vr ?c ?nm ?router)"
      using r' by (simp add: completeRequest_redis)
    then show ?thesis using d nl None True by simp
  next
    case (Some kh)
    let ?entry = "auditEntryFor clk vr (consumeBudget (t_consume clk) (t_usage clk) ?c
               (stringifyResponse env (fst (dispatch (t_backend clk) vr ?c ?nm ?router))))
             (fst (dispatch (t_backend clk) vr ?c ?nm ?router)) kh"
    have e: "redis router' =
        auditLog (t_audit clk) (auditKey env) (snd (dispatch (t_backend clk) vr ?c ?nm ?router)) ?entry"
      using Some r' by (simp add: completeRequest_redis)
    from auditLog_commands[of "t_audit clk" "auditKey env" "snd (dispatch (t_backend clk) vr ?c ?nm ?router)" ?entry]
    obtain pushed rest where
      a: "rd_commands (auditLog (t_audit clk) (auditKey env) (snd (dispatch (t_backend clk) vr ?c ?nm ?router)) ?entry)
          = rd_commands (snd (dispatch (t_backend clk) vr ?c ?nm ?router)) @ LPUSH (auditKey env) pushed # rest"
      and b: "\<forall>cmd \<in> set rest. \<not> isLpush cmd \<and> kvKeys cmd = []"
      by blast
    have nr: "filter isLpush rest = []" using b by (auto simp: filter_empty_conv)
    have "rd_commands (redis router') = rd_commands (redis router) @ (issued @ LPUSH (auditKey env) pushed # rest)"
      using e a d by simp
    moreover have "length (filter isLpush (issued @ LPUSH (auditKey env) pushed # rest)) = 1"
      using nl nr by simp
    ultimately show ?thesis using True Some by (intro exI[of _ "issued @ LPUSH (auditKey env) pushed # rest"]) simp
  qed
qed

theorem C5_amended_witness:
  "passesChecks demoEnv (clockAt 0) foreignGetRequest demoConnection newRouter \<and>
   map_option rs_error (fst (handleRequest demoEnv (clockAt 0) foreignGetRequest demoConnection
       newRouter)) = Some (Some (RESTRICTED, ''Key outside namespace'')) \<and>
   (\<exists>issued.
      rd_commands (redis (fst (snd (handleRequest demoEnv (clockAt 0) foreignGetRequest
          demoConnection newRouter)))) = rd_commands (redis newRouter) @ issued \<and>
      length (filter isLpush issued) = 1)"
proof -
  let ?first = "handleRequest demoEnv (clockAt 0) foreignGetRequest demoConnection newRouter"
  let ?vr = "\<lparr> rq_method = ''get'', rq_params = [(''key'', JStr ''other:x'')], rq_id = ''r-2'' \<rparr>"
  have h1: "baseRequestSchemaParse foreignGetRequest = Some ?vr"
    by (simp add: foreignGetRequest_def demo_parse)
  have h2: "?first = (fst ?first, fst (snd ?first), snd (snd ?first))"
    by simp
  have h3: "passesChecks demoEnv (clockAt 0) foreignGetRequest demoConnection newRouter"
    by code_simp
  have h4: "hashKey demoEnv (map_of (rq_params ?vr) ''key'') \<noteq> None"
    by (simp add: hashKey_def)
  have h5: "map_option rs_error (fst ?first) = Some (Some (RESTRICTED, ''Key outside namespace''))"
    by code_simp
  show ?thesis
    using h3 h4 h5 C5_amended [OF h1 h2] by simp
qed

text \<open>
  Claim C6, as stated: an event whose \<^verbatim>\<open>created_at\<close> is more than 60 seconds ahead of the
  server clock, or older than five minutes, gets no response.  The server compares
  \<^verbatim>\<open>created_at\<close> with nothing: with the clock at 1 700 000 000 000 ms, an event dated
  year 2100 and an event dated 1970 are both answered.
\<close>

theorem C6_freshness_counterexample:
  "4102444800 * 1000 - t_start (clockAt 1700000000000) > (60000 :: int) \<and>
   t_start (clockAt 1700000000000) - 0 * 1000 > (300000 :: int) \<and>
   fst (handleIncomingEvent demoEnv (clockAt 1700000000000) (demoEvent 4102444800) newServer)
     \<noteq> None \<and>
   fst (handleIncomingEvent demoEnv (clockAt 1700000000000) (demoEvent 0) newServer) \<noteq> None"
  by code_simp

text \<open>
  Claim C6, amended: the server applies no freshness check; what it does with an event does
  not depend on \<^verbatim>\<open>created_at\<close>, as long as \<^verbatim>\<open>created_at\<close> times 1000 is within the range of a
  JavaScript date (an event beyond that range is dropped by the failing log line).
\<close>

theorem C6_amended:
  assumes "validDate (ev_created_at event * 1000)" and "validDate (t * 1000)"
  shows "handleIncomingEvent env clk (event\<lparr> ev_created_at := t \<rparr>) server =
         handleIncomingEvent env clk event server"
  using assms by (simp add: handleIncomingEvent_def Let_def split: option.splits)

theorem C6_amended_witness:
  "validDate (ev_created_at (demoEvent 1700000000) * 1000) \<and> validDate (0 * 1000) \<and>
   handleIncomingEvent demoEnv (clockAt 1700000000000)
     ((demoEvent 1700000000)\<lparr> ev_created_at := 0 \<rparr>) newServer =
   handleIncomingEvent demoEnv (clockAt 1700000000000) (demoEvent 1700000000) newServer"
proof -
  have h1: "validDate (ev_created_at (demoEvent 1700000000) * 1000)"
    by (simp add: validDate_def demoEvent_def)
  have h2: "validDate (0 * 1000)"
    by (simp add: validDate_def)
  show ?thesis
    using h1 h2 C6_amended [OF h1 h2] by simp
qed

text \<open>
  Claim C7: a get after \<^verbatim>\<open>set(k, v)\<close> returns the base-64 string \<open>v\<close>.  The adapter's get
  returns the stored bytes as they are when they happen to read as canonical base-64: after
  \<^verbatim>\<open>set(k, "YWJjZA==")\<close> the store holds the four bytes \<^verbatim>\<open>abcd\<close>, and get returns \<^verbatim>\<open>abcd\<close>.
\<close>

theorem C7_roundtrip_breaks:
  "bufferFromBase64 ''YWJjZA=='' = ''abcd'' \<and>
   toBase64 ''abcd'' = ''YWJjZA=='' \<and>
   fst (kvGet 1 (snd (kvSet 0 emptyRedis ''appA:k'' ''YWJjZA=='' None)) ''appA:k'') =
     Some (Some ''abcd'') \<and>
   fst roundTripRun =
     [Some (okResponse (Some (JStr ''r-1'')) (ROk True)),
      Some (okResponse (Some (JStr ''r-2'')) (RValue (Some ''abcd'')))]"
  by code_simp



text \<open>
  Claim C9, as stated: every set request is answered \<^verbatim>\<open>INVALID_VALUE\<close> exactly when the
  lenient base-64 decoding of its value is longer than \<^verbatim>\<open>max_val\<close>.  The set handler
  checks the key before the value: with keys of at most four characters and values of at
  most two bytes, a set of the key \<^verbatim>\<open>toolong\<close> with a value that decodes to the five bytes
  \<^verbatim>\<open>Hello\<close> is answered \<^verbatim>\<open>INVALID_KEY\<close>.
\<close>

theorem C9_key_first_counterexample:
  "bufferFromBase64 ''SGVsbG8='' = ''Hello'' \<and>
   int (length (bufferFromBase64 ''SGVsbG8='')) > maxVal (limits narrowConnection) \<and>
   baseRequestSchemaParse longKeySetRequest = Some longKeySet \<and>
   setParamsParse (rq_params longKeySet) = Some (''toolong'', ''SGVsbG8='', None) \<and>
   fst (handleSet 0 longKeySet narrowConnection (newNamespaceManager ''appA:'') newRouter) =
     errorResponse (Some (JStr ''r-8'')) INVALID_KEY ''Key too long or invalid'' \<and>
   fst (handleRequest demoEnv (clockAt 0) longKeySetRequest narrowConnection newRouter) =
     Some (errorResponse (Some (JStr ''r-8'')) INVALID_KEY ''Key too long or invalid'')"
  by code_simp

text \<open>
  Claim C9, amended: the set handler answers \<^verbatim>\<open>INVALID_VALUE\<close> exactly when the parameters
  of the request satisfy the set schema, the key passes the key check, the value is not the
  empty string and the lenient base-64 decoding of the value is longer than \<^verbatim>\<open>max_val\<close>.
  A malformed value is decoded without error and is rejected for its decoded length only; the
  empty value passes the value check under every limit.
\<close>

theorem C9_amended:
  "(map_option fst (rs_error (fst (handleSet now request connection nm router))) =
      Some INVALID_VALUE
     \<longleftrightarrow> (\<exists>key v ttl. setParamsParse (rq_params request) = Some (key, v, ttl) \<and>
            validateKey key (maxKey (limits connection)) \<and> v \<noteq> [] \<and>
            int (length (bufferFromBase64 v)) > maxVal (limits connection)))
   \<and> validateValue [] maxSize"
proof (intro conjI)
  show "validateValue [] maxSize"
    by (simp add: validateValue_def)
  show "map_option fst (rs_error (fst (handleSet now request connection nm router))) =
          Some INVALID_VALUE
        \<longleftrightarrow> (\<exists>key v ttl. setParamsParse (rq_params request) = Some (key, v, ttl) \<and>
               validateKey key (maxKey (limits connection)) \<and> v \<noteq> [] \<and>
               int (length (bufferFromBase64 v)) > maxVal (limits connection))"
  proof (cases "setParamsParse (rq_params request)")
    case None
    then show ?thesis
      by (simp add: handleSet_def errorResponse_def)
  next
    case (Some parsed)
    obtain key v ttl where p: "parsed = (key, v, ttl)"
      by (cases parsed) auto
    show ?thesis
    proof (cases "validateKey key (maxKey (limits connection))")
      case True
      have "map_option fst (rs_error (fst (handleSet now request connection nm router))) =
              Some INVALID_VALUE
            \<longleftrightarrow> \<not> validateValue v (maxVal (limits connection))"
        using Some p True by (rule_tac handleSet_INVALID_VALUE) simp_all
      then show ?thesis
        using Some p True by (auto simp: validateValue_iff)
    next
      case False
      then show ?thesis
        using Some p by (simp add: handleSet_def errorResponse_def)
    qed
  qed
qed

theorem C9_amended_witness:
  "bufferFromBase64 ''!!SGVsbG8'' = ''Hello'' \<and>
   map_option fst (rs_error (fst (handleSet 0 lenientSetRequest demoConnection
       (newNamespaceManager ''appA:'') newRouter))) \<noteq> Some INVALID_VALUE \<and>
   map_option fst (rs_error (fst (handleSet 0 oversizeSet narrowConnection
       (newNamespaceManager ''appA:'') newRouter))) = Some INVALID_VALUE \<and>
   validateValue [] (- 1)"
proof -
  have l1: "setParamsParse (rq_params lenientSetRequest) = Some (''a'', ''!!SGVsbG8'', None)"
    by code_simp
  have l2: "bufferFromBase64 ''!!SGVsbG8'' = ''Hello''"
    by code_simp
  have l3: "\<not> int (length ''Hello'') > maxVal (limits demoConnection)"
    by code_simp
  have o1: "setParamsParse (rq_params oversizeSet) = Some (''a'', ''SGVsbG8='', None)"
    by code_simp
  have o2: "validateKey ''a'' (maxKey (limits narrowConnection))"
    by code_simp
  have o3: "int (length (bufferFromBase64 ''SGVsbG8='')) > maxVal (limits narrowConnection)"
    by code_simp
  have lenient: "map_option fst (rs_error (fst (handleSet 0 lenientSetRequest demoConnection
       (newNamespaceManager ''appA:'') newRouter))) \<noteq> Some INVALID_VALUE"
    using C9_amended [of 0 lenientSetRequest demoConnection "newNamespaceManager ''appA:''"
        newRouter "- 1"] l1 l2 l3
    by simp
  have oversize: "map_option fst (rs_error (fst (handleSet 0 oversizeSet narrowConnection
       (newNamespaceManager ''appA:'') newRouter))) = Some INVALID_VALUE"
    using C9_amended [of 0 oversizeSet narrowConnection "newNamespaceManager ''appA:''"
        newRouter "- 1"] o1 o2 o3
    by simp
  have empty: "validateValue [] (- 1)"
    using C9_amended [of 0 oversizeSet narrowConnection "newNamespaceManager ''appA:''"
        newRouter "- 1"]
    by simp
  show ?thesis
    using l2 lenient oversize empty by simp
qed

text \<open>
  Claim C10: a request that is not answered from the cache, whose method is allowed and
  which the rate check accepts puts one timestamp, the time of the rate check, at the end of
  the connection's purged request window, whatever is decided about it afterwards.
\<close>

theorem C10_timestamp_recorded:
  assumes "baseRequestSchemaParse request = Some vr"
    and "fst (cacheGet (t_cacheGet clk) (idempotencyCache router) (pubkey connection) (rq_id vr)) = None"
    and "rq_method vr \<in> set (allowedMethods connection)"
    and "fst (checkLimit (t_rate clk) connection)"
    and "handleRequest env clk request connection router = (response, router', connection')"
  shows "requests (stateOrInit connection') =
           filter (\<lambda>ts. t_rate clk - ts < windowMs) (requests (stateOrInit connection)) @ [t_rate clk]"
proof -
  obtain nm router1 where g: "getNamespaceManager router connection = (nm, router1)"
    by (cases "getNamespaceManager router connection")
  have c: "idempotencyCache router1 = idempotencyCache router"
    using getNamespaceManager_cache[of router connection] g by simp
  obtain cache1 where cg:
    "cacheGet (t_cacheGet clk) (idempotencyCache router) (pubkey connection) (rq_id vr) = (None, cache1)"
    using assms(2) by (cases "cacheGet (t_cacheGet clk) (idempotencyCache router) (pubkey connection) (rq_id vr)") auto
  obtain c1 where cl: "checkLimit (t_rate clk) connection = (True, c1)"
    using assms(4) by (cases "checkLimit (t_rate clk) connection") auto
  have r1: "requests (stateOrInit c1) =
      filter (\<lambda>ts. t_rate clk - ts < windowMs) (requests (stateOrInit connection)) @ [t_rate clk]"
    using checkLimit_requests[of "t_rate clk" connection] cl by (simp add: Let_def)
  obtain ok2 c2 where cb: "checkBudget (t_budget clk) c1 (stringifyRequest env request) = (ok2, c2)"
    by (cases "checkBudget (t_budget clk) c1 (stringifyRequest env request)")
  have r2: "requests (stateOrInit c2) = requests (stateOrInit c1)"
    using checkBudget_requests[of "t_budget clk" c1 "stringifyRequest env request"] cb by simp
  show ?thesis
  proof (cases ok2)
    case False
    then have "connection' = c2"
      using assms(1,3,5) g c cg cl cb by (simp add: handleRequest_def Let_def)
    then show ?thesis using r1 r2 by simp
  next
    case True
    then have "(response, router', connection') =
        completeRequest env clk request vr nm c2 (router1\<lparr> idempotencyCache := cache1 \<rparr>)"
      using assms(1,3,5) g c cg cl cb by (simp add: handleRequest_def Let_def)
    then have "connection' = snd (snd (completeRequest env clk request vr nm c2 (router1\<lparr> idempotencyCache := cache1 \<rparr>)))"
      by (metis snd_conv)
    then show ?thesis using r1 r2 by (simp add: completeRequest_connection consumeBudget_requests)
  qed
qed

theorem C10_timestamp_recorded_witness:
  "fst (cacheGet (t_cacheGet (clockAt 7)) (idempotencyCache newRouter) (pubkey demoConnection)
          ''r-2'') = None \<and>
   fst (checkLimit (t_rate (clockAt 7)) demoConnection) \<and>
   map_option rs_error (fst (handleRequest demoEnv (clockAt 7) foreignGetRequest demoConnection
       newRouter)) = Some (Some (RESTRICTED, ''Key outside namespace'')) \<and>
   requests (stateOrInit (snd (snd (handleRequest demoEnv (clockAt 7) foreignGetRequest
       demoConnection newRouter)))) = [7]"
proof -
  let ?first = "handleRequest demoEnv (clockAt 7) foreignGetRequest demoConnection newRouter"
  let ?vr = "\<lparr> rq_method = ''get'', rq_params = [(''key'', JStr ''other:x'')], rq_id = ''r-2'' \<rparr>"
  have h1: "baseRequestSchemaParse foreignGetRequest = Some ?vr"
    by (simp add: foreignGetRequest_def demo_parse)
  have h2: "fst (cacheGet (t_cacheGet (clockAt 7)) (idempotencyCache newRouter)
      (pubkey demoConnection) (rq_id ?vr)) = None"
    by code_simp
  have h3: "rq_method ?vr \<in> set (allowedMethods demoConnection)"
    by (simp add: demoConnection_def)
  have h4: "fst (checkLimit (t_rate (clockAt 7)) demoConnection)"
    by code_simp
  have h5: "?first = (fst ?first, fst (snd ?first), snd (snd ?first))"
    by simp
  have h6: "map_option rs_error (fst ?first) = Some (Some (RESTRICTED, ''Key outside namespace''))"
    by code_simp
  have h7: "filter (\<lambda>ts. t_rate (clockAt 7) - ts < windowMs) (requests (stateOrInit demoConnection))
      @ [t_rate (clockAt 7)] = [7]"
    by code_simp
  have h8: "requests (stateOrInit (snd (snd ?first))) =
      filter (\<lambda>ts. t_rate (clockAt 7) - ts < windowMs) (requests (stateOrInit demoConnection))
      @ [t_rate (clockAt 7)]"
    using C10_timestamp_recorded [OF h1 h2 h3 h4 h5] .
  have h9: "requests (stateOrInit (snd (snd ?first))) = [7]"
    using h8 h7 by (simp only:)
  have h10: "fst (cacheGet (t_cacheGet (clockAt 7)) (idempotencyCache newRouter)
      (pubkey demoConnection) ''r-2'') = None"
    using h2 by simp
  show ?thesis
    using h10 h4 h6 h9 by blast
qed

end
